theory Spec2Isabelle
  imports Complex_Main
begin

section \<open>The validator of \<open>neurons/validator.py\<close>\<close>

text \<open>
  A shallow embedding of \<open>Validator.run\<close> and \<open>min_power_normalization\<close>.
  Modelling decisions, all of them visible in the definitions below:
  \<^item> \<open>float\<close> and \<open>torch.float32\<close> values are real numbers: the arithmetic is exact,
    there is no rounding, no overflow and no NaN;
  \<^item> a tensor is the list of its entries; \<open>moving_avg_scores\<close> is the list of length
    \<open>metagraph.n\<close>, indexed by uid, and an index beyond its length raises \<open>IndexError\<close>;
  \<^item> uids are natural numbers;
  \<^item> everything the loop receives from outside (the peer directory, the object store, the
    data loaders, the model's forward pass, the random choices, the block listener's
    window) is a field of the record \<open>env\<close>, one record for each iteration of the loop;
  \<^item> an exception is the constructor \<open>Raised\<close>, which carries the state at the moment of
    the raise, since the assignments made before it persist. The exceptions of the model
    are those of the code of this file (an index out of range, a sample larger than its
    population, a zero divisor, an unbound local variable) and, of the calls to the
    outside, those of the model's forward pass;
  \<^item> \<open>zero_grad()\<close> leaves every \<open>p.grad\<close> as \<open>None\<close>, as it does by default in the
    current releases of the library;
  \<^item> logging and metrics are left out, except where building the logged values can raise.
\<close>

subsection \<open>Data\<close>

type_synonym tensor = "real list"
type_synonym batch = "nat list list"
type_synonym uid = nat
type_synonym named_parameters = "(string \<times> tensor) list"

datatype error = IndexError | ValueError | ZeroDivisionError | UnboundLocalError | ForwardError

datatype 'a exec = Done 'a | Raised error 'a

fun state_of :: "'a exec \<Rightarrow> 'a" where
  "state_of (Done s) = s"
| "state_of (Raised e s) = s"

fun is_done :: "'a exec \<Rightarrow> bool" where
  "is_done (Done s) = True"
| "is_done (Raised e s) = False"

fun and_then :: "'a exec \<Rightarrow> ('a \<Rightarrow> 'a exec) \<Rightarrow> 'a exec" where
  "and_then (Done s) f = f s"
| "and_then (Raised e s) f = Raised e s"

text \<open>The optimizer is \<open>SGD(lr)\<close> with no momentum and no weight decay: its state
  dictionary holds the learning rate of its one parameter group.\<close>

record optimizer =
  lr :: real

text \<open>The scheduler's state dictionary: the epoch counter and the last learning rate
  (\<open>get_last_lr()[0]\<close>).\<close>

record scheduler =
  last_epoch :: nat
  last_lr :: real

text \<open>One value of a gathered state dictionary: a single tensor or a list of them.\<close>

datatype gathered = Single tensor | Many "tensor list"

record checkpoint =
  model_state_dict :: named_parameters
  optimizer_state_dict :: optimizer
  scheduler_state_dict :: scheduler
  momentum_ckpt :: "string \<rightharpoonup> tensor"
  start_window_ckpt :: int
  current_window_ckpt :: int
  uid_ckpt :: uid
  global_step_ckpt :: int

text \<open>The hyperparameters and the fixed collaborators: the schedule that
  \<open>scheduler.step()\<close> follows (new epoch and current rate to new rate), and the
  decoders \<open>transformer.decode(compressor.decompress(...))\<close> and
  \<open>transformer.decode(compressor.batch_decompress(...))\<close>, by parameter name.\<close>

record config =
  my_uid :: uid
  ma_alpha :: real
  power_normalisation :: real
  validator_offset :: int
  windows_per_weights :: int
  checkpoint_frequency :: int
  validator_sample_rate :: real
  lr_schedule :: "nat \<Rightarrow> real \<Rightarrow> real"
  decode :: "string \<Rightarrow> tensor \<Rightarrow> tensor \<Rightarrow> tensor \<Rightarrow> tensor"
  batch_decode :: "string \<Rightarrow> tensor \<Rightarrow> tensor list \<Rightarrow> tensor list \<Rightarrow> tensor"

text \<open>What one iteration of the loop receives from outside.\<close>

record catch_up_state =
  cu_model :: named_parameters
  cu_global_step :: int
  cu_optimizer :: optimizer
  cu_scheduler :: scheduler

record env =
  catch_up :: "catch_up_state option"
  window_polls :: "int list"
  comms_peers :: "uid list"
  comms_eval_peers :: "uid list"
  comms_inactive_peers :: "uid list"
  gather_result :: "(string \<rightharpoonup> gathered) option option"
  choice_index :: nat
  eval_result :: "((string \<rightharpoonup> tensor) option \<times> int) option"
  own_batches :: "batch list"
  random_batches :: "batch list"
  sampled_own :: "nat list"
  sampled_random :: "nat list"
  forward :: "named_parameters \<Rightarrow> batch \<Rightarrow> real option"

text \<open>The local variables that a successful evaluation binds (lines 436 to 601).\<close>

record evaluation_result =
  loss_before_own :: real
  loss_after_own :: real
  loss_before_random :: real
  loss_after_random :: real
  raw_score :: real
  improvement_own :: real
  improvement_random :: real
  binary_indicator :: int
  final_score :: real

text \<open>The validator object, and the local variables of \<open>run\<close> that live across
  iterations: \<open>weights\<close>, and the variables of the last successful evaluation
  (\<open>last_evaluation\<close>, \<open>None\<close> while they are unbound). \<open>submitted_weights\<close> and
  \<open>checkpoints\<close> record the calls of \<open>subtensor.set_weights\<close> and of
  \<open>comms.put(..., key='checkpoint')\<close>, the latest first.\<close>

record validator =
  model :: named_parameters
  grad :: "string \<rightharpoonup> tensor"
  optimizer :: optimizer
  scheduler :: scheduler
  momentum :: "string \<rightharpoonup> tensor"
  global_step :: int
  start_window :: int
  current_window :: int
  sync_window :: int
  moving_avg_scores :: "real list"
  evaluated_uids :: "uid set"
  inactive_scores :: "(uid \<times> int \<times> real) list"
  binary_moving_averages :: "uid \<rightharpoonup> real"
  peers :: "uid list"
  eval_peers :: "uid list"
  weights :: "real list"
  last_evaluation :: "evaluation_result option"
  submitted_weights :: "real list list"
  checkpoints :: "checkpoint list"

subsection \<open>\<open>min_power_normalization\<close> and the two weight computations\<close>

text \<open>\<open>logits ** power\<close> is \<open>powr\<close>: the function is called on the positive scores
  only, where the two agree for every real exponent. The argument is never a
  zero-dimensional tensor here (it comes from indexing with a boolean mask).\<close>

definition min_power_normalization :: "real list \<Rightarrow> real \<Rightarrow> real \<Rightarrow> real list" where
  "min_power_normalization logits pwr epsilon =
     (let powered_logits = map (\<lambda>x. x powr pwr) logits;
          sum_powered = sum_list powered_logits
      in if sum_powered > epsilon then map (\<lambda>x. x / sum_powered) powered_logits
         else map (\<lambda>x. 0) powered_logits)"

definition default_epsilon :: real where
  "default_epsilon = 1 / 10 ^ 8"

text \<open>\<open>t[mask]\<close> and \<open>t[mask] = values\<close> for a boolean mask.\<close>

fun masked_select :: "bool list \<Rightarrow> 'a list \<Rightarrow> 'a list" where
  "masked_select (b # bs) (x # xs) = (if b then x # masked_select bs xs else masked_select bs xs)"
| "masked_select _ _ = []"

fun masked_assign :: "bool list \<Rightarrow> 'a list \<Rightarrow> 'a list \<Rightarrow> 'a list" where
  "masked_assign (True # bs) (w # ws) (v # vs) = v # masked_assign bs ws vs"
| "masked_assign (b # bs) (w # ws) vs = w # masked_assign bs ws vs"
| "masked_assign _ ws _ = ws"

text \<open>\<open>positive_mask = (moving_avg_scores > 0) & evaluated_mask\<close>.\<close>

definition positive_mask :: "validator \<Rightarrow> bool list" where
  "positive_mask st =
     map (\<lambda>i. moving_avg_scores st ! i > 0 \<and> i \<in> evaluated_uids st)
       [0 ..< length (moving_avg_scores st)]"

text \<open>Lines 614 to 619: the weights after a successful evaluation.
  \<open>evaluated_mask[list(evaluated_uids)] = True\<close> raises for a uid out of range.\<close>

definition weights_after_evaluation :: "validator \<Rightarrow> validator exec" where
  "weights_after_evaluation st =
     (let zeros = map (\<lambda>x. 0) (moving_avg_scores st) in
      if \<not> (\<forall>u \<in> evaluated_uids st. u < length (moving_avg_scores st))
      then Raised IndexError st
      else if True \<in> set (positive_mask st)
      then (let selected = masked_select (positive_mask st) (moving_avg_scores st) in
            Done (st\<lparr>weights :=
              masked_assign (positive_mask st) zeros
                (map (\<lambda>x. x / sum_list selected) selected)\<rparr>))
      else Done (st\<lparr>weights := zeros\<rparr>))"

text \<open>Lines 682 to 701: the weights after a missing submission.\<close>

definition weights_after_missing :: "config \<Rightarrow> validator \<Rightarrow> validator exec" where
  "weights_after_missing cfg st =
     (let zeros = map (\<lambda>x. 0) (moving_avg_scores st) in
      if \<not> (\<forall>u \<in> evaluated_uids st. u < length (moving_avg_scores st))
      then Raised IndexError st
      else if True \<in> set (positive_mask st)
      then Done (st\<lparr>weights :=
              masked_assign (positive_mask st) zeros
                (min_power_normalization
                   (masked_select (positive_mask st) (moving_avg_scores st))
                   (power_normalisation cfg) default_epsilon)\<rparr>)
      else Done (st\<lparr>weights := zeros\<rparr>))"

subsection \<open>Peer refresh and the inactivity penalties\<close>

text \<open>The \<open>while\<close> loop of line 288. \<open>window_polls\<close> are the values of
  \<open>current_window\<close> that the block listener stores during the successive sleeps;
  the result is the window at which the loop is left, \<open>None\<close> when it is not left
  within these polls.\<close>

fun wait_for_offset :: "int \<Rightarrow> int \<Rightarrow> int \<Rightarrow> int list \<Rightarrow> int option" where
  "wait_for_offset sync off cw [] = (if sync \<ge> cw - off then None else Some cw)"
| "wait_for_offset sync off cw (c # cs) =
     (if sync \<ge> cw - off then wait_for_offset sync off c cs else Some cw)"

text \<open>Lines 296 to 302. \<open>comms.update_peers_with_buckets()\<close> is not part of this
  file: what it leaves in \<open>comms.peers\<close>, \<open>comms.eval_peers\<close> and
  \<open>comms.inactive_peers\<close> comes from the environment.\<close>

definition refresh_peers :: "env \<Rightarrow> validator \<Rightarrow> validator" where
  "refresh_peers e st =
     st\<lparr>sync_window := sync_window st + 1,
        peers := comms_peers e,
        eval_peers := comms_eval_peers e\<rparr>"

text \<open>Lines 313 to 316. The dictionary \<open>inactive_scores\<close> is an association list in
  insertion order.\<close>

fun track_newly_inactive :: "uid list \<Rightarrow> validator \<Rightarrow> validator exec" where
  "track_newly_inactive [] st = Done st"
| "track_newly_inactive (u # us) st =
     (if map_of (inactive_scores st) u \<noteq> None then track_newly_inactive us st
      else if u < length (moving_avg_scores st)
      then track_newly_inactive us
             (st\<lparr>inactive_scores :=
                  inactive_scores st @ [(u, (sync_window st, moving_avg_scores st ! u))]\<rparr>)
      else Raised IndexError st)"

text \<open>Lines 319 to 334, over the snapshot \<open>list(inactive_scores.items())\<close>.\<close>

fun apply_inactivity_penalties :: "(uid \<times> int \<times> real) list \<Rightarrow> validator \<Rightarrow> validator exec" where
  "apply_inactivity_penalties [] st = Done st"
| "apply_inactivity_penalties ((u, since) # items) st =
     (if u \<in> set (eval_peers st)
      then apply_inactivity_penalties items
             (st\<lparr>inactive_scores := filter (\<lambda>kv. fst kv \<noteq> u) (inactive_scores st)\<rparr>)
      else if u < length (moving_avg_scores st)
      then apply_inactivity_penalties items
             (st\<lparr>moving_avg_scores :=
                  (moving_avg_scores st)[u := moving_avg_scores st ! u * (75 / 100)]\<rparr>)
      else Raised IndexError st)"

definition slash_inactive :: "env \<Rightarrow> validator \<Rightarrow> validator exec" where
  "slash_inactive e st =
     and_then (track_newly_inactive (comms_inactive_peers e) st)
       (\<lambda>s. apply_inactivity_penalties (inactive_scores s) s)"

subsection \<open>Evaluating one peer's gradient\<close>

text \<open>\<open>int(x)\<close> truncates towards zero.\<close>

definition py_int :: "real \<Rightarrow> int" where
  "py_int x = (if 0 \<le> x then \<lfloor>x\<rfloor> else \<lceil>x\<rceil>)"

definition sample_size :: "config \<Rightarrow> nat \<Rightarrow> int" where
  "sample_size cfg total_batches =
     max 1 (py_int (real total_batches * validator_sample_rate cfg))"

text \<open>The loops over \<open>enumerate(batches)\<close>: the sum of the losses of the sampled
  batches and their number; \<open>None\<close> when a forward pass raises.\<close>

fun accumulate_loss ::
  "(named_parameters \<Rightarrow> batch \<Rightarrow> real option) \<Rightarrow> named_parameters \<Rightarrow> nat list \<Rightarrow>
   nat \<Rightarrow> batch list \<Rightarrow> real \<times> nat \<Rightarrow> (real \<times> nat) option" where
  "accumulate_loss fwd m sampled i [] acc = Some acc"
| "accumulate_loss fwd m sampled i (b # bs) acc =
     (if i \<notin> set sampled then accumulate_loss fwd m sampled (Suc i) bs acc
      else (case fwd m b of
              None \<Rightarrow> None
            | Some l \<Rightarrow> accumulate_loss fwd m sampled (Suc i) bs (fst acc + l, snd acc + 1)))"

text \<open>Lines 443 to 467 and 532 to 556. When \<open>p.grad\<close> is \<open>None\<close> it becomes the very
  tensor \<open>grad\<close>, so \<open>p.grad.sign_()\<close> signs \<open>grad\<close> too; otherwise \<open>grad\<close> is copied
  and stays as decoded. \<open>p.data.sub_(grad, alpha=lr)\<close> is taken entry by entry.\<close>

fun apply_gradient ::
  "config \<Rightarrow> (string \<rightharpoonup> tensor) \<Rightarrow> real \<Rightarrow> named_parameters \<Rightarrow> (string \<rightharpoonup> tensor) \<Rightarrow>
   named_parameters \<times> (string \<rightharpoonup> tensor)" where
  "apply_gradient cfg sd rate [] g = ([], g)"
| "apply_gradient cfg sd rate ((n, p) # ps) g =
     (case (sd (n @ ''idxs''), sd (n @ ''vals'')) of
        (Some idxs, Some vals) \<Rightarrow>
          (let decoded = decode cfg n p idxs vals;
               step = (if g n = None then map sgn decoded else decoded);
               p' = map2 (\<lambda>x d. x - rate * d) p step;
               rest = apply_gradient cfg sd rate ps (g(n \<mapsto> map sgn decoded))
           in ((n, p') # fst rest, snd rest))
      | _ \<Rightarrow> (let rest = apply_gradient cfg sd rate ps g in ((n, p) # fst rest, snd rest)))"

definition apply_gradient_to :: "config \<Rightarrow> (string \<rightharpoonup> tensor) \<Rightarrow> validator \<Rightarrow> validator" where
  "apply_gradient_to cfg sd st =
     (let r = apply_gradient cfg sd (last_lr (scheduler st)) (model st) (grad st)
      in st\<lparr>model := fst r, grad := snd r\<rparr>)"

text \<open>Lines 408 to 484: the losses on the peer's own data, before and after its
  gradient. \<open>random.sample\<close> raises \<open>ValueError\<close> when the sample is larger than the
  population; otherwise its result is \<open>sampled_own\<close>.\<close>

definition evaluate_own ::
  "config \<Rightarrow> env \<Rightarrow> (string \<rightharpoonup> tensor) \<Rightarrow> validator \<Rightarrow>
   error \<times> validator + real \<times> real \<times> validator" where
  "evaluate_own cfg e sd st0 =
     (let st = st0\<lparr>grad := Map.empty\<rparr>;
          batches = own_batches e
      in if sample_size cfg (length batches) > int (length batches) then Inl (ValueError, st)
         else
          (let sampled_indices = sort (sampled_own e) in
           case accumulate_loss (forward e) (model st) sampled_indices 0 batches (0, 0) of
             None \<Rightarrow> Inl (ForwardError, st)
           | Some (loss_before, n_batches) \<Rightarrow>
              (let lbo = (if n_batches > 0 then loss_before / real n_batches else 0);
                   st' = apply_gradient_to cfg sd st
               in case accumulate_loss (forward e) (model st') sampled_indices 0 batches (0, 0) of
                    None \<Rightarrow> Inl (ForwardError, st')
                  | Some (loss_after, _) \<Rightarrow>
                      Inr (lbo, (if n_batches > 0 then loss_after / real n_batches else 0), st'))))"

text \<open>Lines 500 to 577: the same on random data, from the restored parameters, and
  the parameters restored again at the end.\<close>

definition evaluate_random ::
  "config \<Rightarrow> env \<Rightarrow> (string \<rightharpoonup> tensor) \<Rightarrow> named_parameters \<Rightarrow> validator \<Rightarrow>
   error \<times> validator + real \<times> real \<times> validator" where
  "evaluate_random cfg e sd original_params st0 =
     (let st = st0\<lparr>model := original_params\<rparr>;
          batches_random = random_batches e
      in if sample_size cfg (length batches_random) > int (length batches_random)
         then Inl (ValueError, st)
         else
          (let sampled_indices = sort (sampled_random e) in
           case accumulate_loss (forward e) (model st) sampled_indices 0 batches_random (0, 0) of
             None \<Rightarrow> Inl (ForwardError, st)
           | Some (loss_before, _) \<Rightarrow>
              (let lbr = (if sampled_indices \<noteq> [] then loss_before / real (length sampled_indices)
                          else 0);
                   st' = apply_gradient_to cfg sd st
               in case accumulate_loss (forward e) (model st') sampled_indices 0 batches_random
                         (0, 0) of
                    None \<Rightarrow> Inl (ForwardError, st')
                  | Some (loss_after, _) \<Rightarrow>
                      Inr (lbr,
                           (if sampled_indices \<noteq> [] then loss_after / real (length sampled_indices)
                            else 0),
                           st'\<lparr>model := original_params\<rparr>))))"

subsection \<open>Scores after an evaluation and after a missing submission\<close>

text \<open>The expression of lines 584, 587 and 588.\<close>

definition improvement :: "real \<Rightarrow> real \<Rightarrow> real" where
  "improvement loss_before loss_after =
     (if loss_before > 0 then (loss_before - loss_after) / loss_before else 0)"

text \<open>Lines 584 to 610, from the four mean losses.\<close>

definition update_scores ::
  "config \<Rightarrow> uid \<Rightarrow> real \<times> real \<times> real \<times> real \<Rightarrow> validator \<Rightarrow> validator exec" where
  "update_scores cfg eval_uid losses st =
     (case losses of (lbo, lao, lbr, lar) \<Rightarrow>
       (let score = improvement lbo lao;
            imp_own = improvement lbo lao;
            imp_random = improvement lbr lar;
            indicator = (if imp_own > imp_random then 1 else - 1);
            old_avg = (case binary_moving_averages st eval_uid of None \<Rightarrow> 0 | Some b \<Rightarrow> b);
            new_avg = (1 - ma_alpha cfg) * old_avg + ma_alpha cfg * real_of_int indicator;
            normalized_binary_avg = new_avg / 2;
            final = score * normalized_binary_avg;
            st1 = st\<lparr>binary_moving_averages := (binary_moving_averages st)(eval_uid \<mapsto> new_avg),
                     last_evaluation := Some
                       \<lparr>loss_before_own = lbo, loss_after_own = lao,
                        loss_before_random = lbr, loss_after_random = lar,
                        raw_score = score, improvement_own = imp_own,
                        improvement_random = imp_random, binary_indicator = indicator,
                        final_score = final\<rparr>\<rparr>
        in if eval_uid < length (moving_avg_scores st1)
           then Done (st1\<lparr>moving_avg_scores :=
                            (moving_avg_scores st1)[eval_uid :=
                               max ((1 - ma_alpha cfg) * (moving_avg_scores st1 ! eval_uid)
                                     + ma_alpha cfg * final) 0],
                          evaluated_uids := insert eval_uid (evaluated_uids st1)\<rparr>)
           else Raised IndexError st1))"

text \<open>Lines 630 to 638: \<open>sync_window % windows_per_weights\<close> raises for a zero
  divisor.\<close>

definition set_weights_periodically :: "config \<Rightarrow> validator \<Rightarrow> validator exec" where
  "set_weights_periodically cfg st =
     (if windows_per_weights cfg = 0 then Raised ZeroDivisionError st
      else if sync_window st mod windows_per_weights cfg = 0
      then Done (st\<lparr>submitted_weights := weights st # submitted_weights st\<rparr>)
      else Done st)"

text \<open>The branch of a received gradient, lines 389 to 669.\<close>

definition evaluate_peer ::
  "config \<Rightarrow> env \<Rightarrow> uid \<Rightarrow> (string \<rightharpoonup> tensor) \<Rightarrow> validator \<Rightarrow> validator exec" where
  "evaluate_peer cfg e eval_uid sd st =
     (let original_params = model st in
      case evaluate_own cfg e sd st of
        Inl (err, s) \<Rightarrow> Raised err s
      | Inr (lbo, lao, s1) \<Rightarrow>
         (case evaluate_random cfg e sd original_params s1 of
            Inl (err, s) \<Rightarrow> Raised err s
          | Inr (lbr, lar, s2) \<Rightarrow>
              and_then
                (and_then (update_scores cfg eval_uid (lbo, lao, lbr, lar) s2)
                   weights_after_evaluation)
                (set_weights_periodically cfg)))"

text \<open>The branch of a missing gradient, lines 671 to 713.\<close>

definition missing_submission :: "config \<Rightarrow> uid \<Rightarrow> validator \<Rightarrow> validator exec" where
  "missing_submission cfg eval_uid st =
     (if eval_uid < length (moving_avg_scores st)
      then weights_after_missing cfg
             (st\<lparr>moving_avg_scores :=
                   (moving_avg_scores st)[eval_uid := moving_avg_scores st ! eval_uid * (5 / 10)],
                 evaluated_uids := insert eval_uid (evaluated_uids st)\<rparr>)
      else Raised IndexError st)"

subsection \<open>Checkpoint, model update, weight submission\<close>

text \<open>Lines 716 to 738.\<close>

definition create_checkpoint :: "config \<Rightarrow> validator \<Rightarrow> validator exec" where
  "create_checkpoint cfg st =
     (if checkpoint_frequency cfg = 0 then Raised ZeroDivisionError st
      else if global_step st mod checkpoint_frequency cfg = 0
      then Done (st\<lparr>checkpoints :=
             \<lparr>model_state_dict = model st, optimizer_state_dict = optimizer st,
              scheduler_state_dict = scheduler st, momentum_ckpt = momentum st,
              start_window_ckpt = start_window st, current_window_ckpt = current_window st,
              uid_ckpt = my_uid cfg, global_step_ckpt = global_step st\<rparr> # checkpoints st\<rparr>)
      else Done st)"

fun as_list :: "gathered \<Rightarrow> tensor list" where
  "as_list (Single t) = [t]"
| "as_list (Many ts) = ts"

text \<open>Lines 747 to 776: the momentum and the gradient of every parameter that has
  both entries in the gathered state.\<close>

fun set_gathered_gradients ::
  "config \<Rightarrow> (string \<rightharpoonup> gathered) \<Rightarrow> named_parameters \<Rightarrow> validator \<Rightarrow> validator" where
  "set_gathered_gradients cfg gs [] st = st"
| "set_gathered_gradients cfg gs ((n, p) # ps) st =
     (case (gs (n @ ''idxs''), gs (n @ ''vals'')) of
        (Some idxs, Some vals) \<Rightarrow>
          (let new_grad = batch_decode cfg n p (as_list idxs) (as_list vals)
           in set_gathered_gradients cfg gs ps
                (st\<lparr>momentum := (momentum st)(n \<mapsto> new_grad),
                    grad := (grad st)(n \<mapsto> map sgn new_grad)\<rparr>))
      | _ \<Rightarrow> set_gathered_gradients cfg gs ps st)"

text \<open>\<open>optimizer.step()\<close> of plain SGD: every parameter that has a gradient moves
  against it by the learning rate.\<close>

definition optimizer_step :: "validator \<Rightarrow> validator" where
  "optimizer_step st =
     st\<lparr>model :=
          map (\<lambda>(n, p). case grad st n of
                           None \<Rightarrow> (n, p)
                         | Some d \<Rightarrow> (n, map2 (\<lambda>x dx. x - lr (optimizer st) * dx) p d))
            (model st)\<rparr>"

text \<open>\<open>scheduler.step()\<close>: the epoch advances by one and the schedule gives the
  optimizer its new learning rate.\<close>

definition scheduler_step :: "config \<Rightarrow> validator \<Rightarrow> validator" where
  "scheduler_step cfg st =
     (let epoch = Suc (last_epoch (scheduler st));
          rate = lr_schedule cfg epoch (lr (optimizer st))
      in st\<lparr>optimizer := \<lparr>lr = rate\<rparr>, scheduler := \<lparr>last_epoch = epoch, last_lr = rate\<rparr>\<rparr>)"

text \<open>Lines 741 to 780.\<close>

definition update_model :: "config \<Rightarrow> env \<Rightarrow> validator \<Rightarrow> validator" where
  "update_model cfg e st =
     (let st1 = st\<lparr>grad := Map.empty\<rparr>;
          st2 = (case gather_result e of
                   Some (Some gs) \<Rightarrow> set_gathered_gradients cfg gs (model st1) st1
                 | _ \<Rightarrow> st1)
      in scheduler_step cfg (optimizer_step st2))"

text \<open>Lines 784 to 806: after the submission the logged dictionary reads
  \<open>loss_before_own\<close>, which is unbound until an evaluation has succeeded.\<close>

definition set_weights_and_log :: "config \<Rightarrow> validator \<Rightarrow> validator exec" where
  "set_weights_and_log cfg st =
     (if windows_per_weights cfg = 0 then Raised ZeroDivisionError st
      else if sync_window st mod windows_per_weights cfg = 0
      then (let st1 = st\<lparr>submitted_weights := weights st # submitted_weights st\<rparr>
            in case last_evaluation st1 of
                 None \<Rightarrow> Raised UnboundLocalError st1
               | Some r \<Rightarrow> Done st1)
      else Done st)"

subsection \<open>One iteration of the loop\<close>

text \<open>The body of the \<open>try\<close> statement, lines 387 to 821.\<close>

definition score_selected_peer :: "config \<Rightarrow> env \<Rightarrow> uid \<Rightarrow> validator \<Rightarrow> validator exec" where
  "score_selected_peer cfg e eval_uid st =
     (case eval_result e of
        Some (Some sd, step) \<Rightarrow> evaluate_peer cfg e eval_uid sd st
      | _ \<Rightarrow> missing_submission cfg eval_uid st)"

definition try_body :: "config \<Rightarrow> env \<Rightarrow> uid \<Rightarrow> validator \<Rightarrow> validator exec" where
  "try_body cfg e eval_uid st =
     and_then
       (and_then
          (and_then
             (and_then (score_selected_peer cfg e eval_uid st) (create_checkpoint cfg))
             (\<lambda>s. Done (update_model cfg e s)))
          (set_weights_and_log cfg))
       (\<lambda>s. Done (s\<lparr>global_step := global_step s + 1\<rparr>))"

text \<open>Lines 367 to 371 and the \<open>finally\<close> clause, lines 823 to 830.\<close>

definition original_state :: "validator \<Rightarrow> named_parameters \<times> optimizer \<times> scheduler" where
  "original_state st = (model st, optimizer st, scheduler st)"

definition load_state_dicts ::
  "named_parameters \<times> optimizer \<times> scheduler \<Rightarrow> validator \<Rightarrow> validator" where
  "load_state_dicts orig st =
     st\<lparr>model := fst orig, optimizer := fst (snd orig), scheduler := snd (snd orig)\<rparr>"

fun finally_restore ::
  "named_parameters \<times> optimizer \<times> scheduler \<Rightarrow> validator exec \<Rightarrow> validator exec" where
  "finally_restore orig (Done s) = Done (load_state_dicts orig s)"
| "finally_restore orig (Raised err s) = Raised err (load_state_dicts orig s)"

text \<open>Lines 265 to 285. \<open>comms.check_and_perform_catch_up\<close> is not part of this
  file: its result comes from the environment, with the model it has loaded.\<close>

definition adopt_catch_up :: "catch_up_state \<Rightarrow> validator \<Rightarrow> validator" where
  "adopt_catch_up cu st =
     st\<lparr>model := cu_model cu,
        global_step := cu_global_step cu,
        optimizer := cu_optimizer cu,
        scheduler := cu_scheduler cu,
        sync_window := current_window st\<rparr>"

text \<open>Lines 287 to 340: the iteration up to the gather.\<close>

definition begin_window :: "config \<Rightarrow> env \<Rightarrow> validator \<Rightarrow> validator exec option" where
  "begin_window cfg e st =
     (case wait_for_offset (sync_window st) (validator_offset cfg) (current_window st)
             (window_polls e) of
        None \<Rightarrow> None
      | Some cw \<Rightarrow> Some (slash_inactive e (refresh_peers e (st\<lparr>current_window := cw\<rparr>))))"

text \<open>Lines 359 to 830: from the check for an empty evaluation list to the end of
  the iteration. \<open>random.choice(eval_peers)\<close> is the entry at \<open>choice_index\<close>.\<close>

definition evaluate_and_update :: "config \<Rightarrow> env \<Rightarrow> validator \<Rightarrow> validator exec" where
  "evaluate_and_update cfg e st =
     (if eval_peers st = [] then Done (st\<lparr>global_step := global_step st + 1\<rparr>)
      else
       (let orig = original_state st;
            eval_uid = eval_peers st ! (choice_index e mod length (eval_peers st))
        in finally_restore orig (try_body cfg e eval_uid st)))"

text \<open>The body of \<open>while True\<close>. \<open>None\<close>: the iteration does not end within the
  polls given.\<close>

definition window_iteration :: "config \<Rightarrow> env \<Rightarrow> validator \<Rightarrow> validator exec option" where
  "window_iteration cfg e st =
     (case catch_up e of
        Some cu \<Rightarrow> Some (Done (adopt_catch_up cu st))
      | None \<Rightarrow>
         (case begin_window cfg e st of
            None \<Rightarrow> None
          | Some r \<Rightarrow> Some (and_then r (evaluate_and_update cfg e))))"

text \<open>The loop: it goes on while the iterations end without an exception.\<close>

fun run_windows :: "config \<Rightarrow> env list \<Rightarrow> validator \<Rightarrow> validator exec option" where
  "run_windows cfg [] st = Some (Done st)"
| "run_windows cfg (e # es) st =
     (case window_iteration cfg e st of
        None \<Rightarrow> None
      | Some (Raised err s) \<Rightarrow> Some (Raised err s)
      | Some (Done s) \<Rightarrow> run_windows cfg es s)"

subsection \<open>Start of the process\<close>

text \<open>\<open>__init__\<close>, lines 163 to 199, for \<open>metagraph.n = n\<close>, with the model, the
  optimizer and the scheduler as they are built there.\<close>

definition init_validator ::
  "nat \<Rightarrow> named_parameters \<Rightarrow> optimizer \<Rightarrow> scheduler \<Rightarrow> int \<Rightarrow> validator" where
  "init_validator n m opt sch window =
     \<lparr>model = m, grad = Map.empty, optimizer = opt, scheduler = sch,
      momentum = map_of (map (\<lambda>(name, p). (name, map (\<lambda>x. 0) p)) m),
      global_step = 0, start_window = window, current_window = window, sync_window = window,
      moving_avg_scores = replicate n 0, evaluated_uids = {}, inactive_scores = [],
      binary_moving_averages = Map.empty, peers = [], eval_peers = [], weights = [],
      last_evaluation = None, submitted_weights = [], checkpoints = []\<rparr>"

text \<open>Lines 203 to 209 of \<open>run\<close>: the gather peers at the start.\<close>

definition load_peers :: "config \<Rightarrow> uid list option \<Rightarrow> uid list \<Rightarrow> validator \<Rightarrow> validator" where
  "load_peers cfg config_peers comms_peers_now st =
     (let ps = (case config_peers of
                  None \<Rightarrow> comms_peers_now
                | Some cp \<Rightarrow> if cp = [] then comms_peers_now else cp)
      in st\<lparr>peers := (if my_uid cfg \<notin> set ps then ps @ [my_uid cfg] else ps)\<rparr>)"

text \<open>Lines 215 to 252: the start window and the checkpoint.
  \<open>comms.get_start_window\<close> and \<open>comms.load_checkpoint\<close> are not part of this file:
  their results come from the record \<open>startup_env\<close>.\<close>

record loaded_checkpoint =
  ck_model :: named_parameters
  ck_momentum :: "string \<rightharpoonup> tensor"
  ck_global_step :: int
  ck_optimizer :: optimizer
  ck_scheduler :: scheduler

record startup_env =
  config_peers :: "uid list option"
  comms_peers_at_start :: "uid list"
  highest_stake :: bool
  fetched_start_window :: int
  load_checkpoint :: "loaded_checkpoint option"

definition startup :: "config \<Rightarrow> startup_env \<Rightarrow> validator \<Rightarrow> validator" where
  "startup cfg se st =
     (let st1 = load_peers cfg (config_peers se) (comms_peers_at_start se) st;
          st2 = (if highest_stake se then st1
                 else st1\<lparr>start_window := fetched_start_window se,
                          global_step := current_window st1 - fetched_start_window se\<rparr>)
      in case load_checkpoint se of
           Some ck \<Rightarrow>
             st2\<lparr>model := ck_model ck, momentum := ck_momentum ck,
                 global_step := ck_global_step ck, optimizer := ck_optimizer ck,
                 scheduler := ck_scheduler ck\<rparr>
         | None \<Rightarrow>
             st2\<lparr>momentum := map_of (map (\<lambda>(name, p). (name, map (\<lambda>x. 0) p)) (model st2))\<rparr>)"

text \<open>The states of the validator between two iterations of the loop.\<close>

inductive reachable :: "config \<Rightarrow> validator \<Rightarrow> bool" for cfg :: config where
  start: "reachable cfg (startup cfg se (init_validator n m opt sch window))"
| step: "reachable cfg st \<Longrightarrow> window_iteration cfg e st = Some (Done st') \<Longrightarrow> reachable cfg st'"

subsection \<open>Predicates used in the statements\<close>

text \<open>The fields that hold the peers' standing; the phases that neither score nor
  penalise leave all of them as they are.\<close>

definition reputation :: "validator \<Rightarrow> real list \<times> uid set \<times> (uid \<times> int \<times> real) list \<times> uid list \<times> (uid \<rightharpoonup> real)" where
  "reputation st = (moving_avg_scores st, evaluated_uids st, inactive_scores st, eval_peers st, binary_moving_averages st)"

text \<open>Every moving average score is at least 0.\<close>

definition scores_nonneg :: "validator \<Rightarrow> bool" where
  "scores_nonneg st \<longleftrightarrow> (\<forall>x \<in> set (moving_avg_scores st). 0 \<le> x)"

text \<open>The uids that have an entry in \<open>inactive_scores\<close>.\<close>

definition tracked :: "validator \<Rightarrow> uid set" where
  "tracked st = fst ` set (inactive_scores st)"

text \<open>The denominator of \<open>min_power_normalization\<close> on the masked scores, and the
  condition that the mask is not empty.\<close>

definition powered_sum :: "config \<Rightarrow> validator \<Rightarrow> real" where
  "powered_sum cfg st =
     sum_list (map (\<lambda>x. x powr power_normalisation cfg)
       (masked_select (positive_mask st) (moving_avg_scores st)))"

definition any_positive :: "validator \<Rightarrow> bool" where
  "any_positive st \<longleftrightarrow> (\<exists>u \<in> evaluated_uids st. moving_avg_scores st ! u > 0)"

text \<open>State \<open>s\<close> differs from \<open>st\<close> in no score but that of \<open>u\<close>, keeps the
  inactivity tracking and the evaluation list, and has lost no evaluated uid.\<close>

definition touches_only :: "uid \<Rightarrow> validator \<Rightarrow> validator \<Rightarrow> bool" where
  "touches_only u st s \<longleftrightarrow>
     length (moving_avg_scores s) = length (moving_avg_scores st) \<and>
     (\<forall>i. i \<noteq> u \<longrightarrow> moving_avg_scores s ! i = moving_avg_scores st ! i) \<and>
     inactive_scores s = inactive_scores st \<and>
     eval_peers s = eval_peers st \<and>
     evaluated_uids st \<subseteq> evaluated_uids s \<and>
     (scores_nonneg st \<longrightarrow> scores_nonneg s)"

text \<open>The uid that \<open>random.choice\<close> returns in \<open>evaluate_and_update\<close>.\<close>

definition selected_uid :: "env \<Rightarrow> validator \<Rightarrow> uid" where
  "selected_uid e st = eval_peers st ! (choice_index e mod length (eval_peers st))"

text \<open>\<open>inactive_scores\<close> is a dictionary: no key occurs twice.\<close>

definition keys_distinct :: "validator \<Rightarrow> bool" where
  "keys_distinct st \<longleftrightarrow> distinct (map fst (inactive_scores st))"

subsection \<open>Example inputs\<close>

text \<open>Example inputs: a model with one parameter \<open>w = [1]\<close>, a validator with uid 0
  among three peers, a window in which peer 1 is evaluated and peer 2 has left, and
  variations of that window.\<close>

definition cfg_ex :: config where
  "cfg_ex = \<lparr>my_uid = 0, ma_alpha = 1 / 10, power_normalisation = 2, validator_offset = 0,
     windows_per_weights = 5, checkpoint_frequency = 1, validator_sample_rate = 1,
     lr_schedule = (\<lambda>epoch rate. rate / 2), decode = (\<lambda>n p idxs vals. vals),
     batch_decode = (\<lambda>n p idxs vals. case vals of [] \<Rightarrow> map (\<lambda>x. 0) p | v # vs \<Rightarrow> v)\<rparr>"

definition model_ex :: named_parameters where
  "model_ex = [(''w'', [1])]"

definition forward_ex :: "named_parameters \<Rightarrow> batch \<Rightarrow> real option" where
  "forward_ex m b =
     (if b = [[1]] then (if m = model_ex then Some 2 else Some (15 / 10))
      else (if m = model_ex then Some 1 else Some (9 / 10)))"

definition sd_ex :: "string \<rightharpoonup> tensor" where
  "sd_ex = [''widxs'' \<mapsto> [0], ''wvals'' \<mapsto> [1]]"

definition env_ex :: env where
  "env_ex = \<lparr>catch_up = None, window_polls = [12], comms_peers = [1, 2],
     comms_eval_peers = [1], comms_inactive_peers = [2],
     gather_result = Some (Some [''widxs'' \<mapsto> Single [0], ''wvals'' \<mapsto> Single [1]]),
     choice_index = 0, eval_result = Some (Some sd_ex, 0),
     own_batches = [[[1]]], random_batches = [[[2]]], sampled_own = [0], sampled_random = [0],
     forward = forward_ex\<rparr>"

definition st_ex :: validator where
  "st_ex = init_validator 3 model_ex \<lparr>lr = 1 / 2\<rparr> \<lparr>last_epoch = 0, last_lr = 1 / 2\<rparr> 10"

text \<open>The start of the process: the validator is the highest staked one, the
  directory lists the peers 1 and 2, no checkpoint is found.\<close>

definition se_ex :: startup_env where
  "se_ex = \<lparr>config_peers = None, comms_peers_at_start = [1, 2], highest_stake = True,
     fetched_start_window = 10, load_checkpoint = None\<rparr>"

definition st0_ex :: validator where
  "st0_ex = startup cfg_ex se_ex st_ex"

text \<open>Peer 0 with the small score \<open>2e-5\<close>; three evaluated peers with the scores
  0.4, 0 and 0.2; a forward pass whose loss is always 1.\<close>

definition st_c4 :: validator where
  "st_c4 = st_ex\<lparr>moving_avg_scores := [2 / 100000, 0, 0]\<rparr>"

definition st_c3 :: validator where
  "st_c3 = st_ex\<lparr>moving_avg_scores := [4 / 10, 0, 2 / 10], evaluated_uids := {0, 1, 2}\<rparr>"

definition env_flat :: env where
  "env_flat = env_ex\<lparr>forward := (\<lambda>m b. Some 1)\<rparr>"

text \<open>The state of the example once its first window has been opened, and windows
  that differ from \<open>env_ex\<close> in one respect: no payload for the selected peer, a
  forward pass that raises as soon as the parameters have moved, an empty evaluation
  list.\<close>

definition st_begun :: validator where
  "st_begun = st0_ex\<lparr>current_window := 12, sync_window := 11, peers := [1, 2],
                    eval_peers := [1], inactive_scores := [(2, (11, 0))]\<rparr>"

definition env_missing :: env where
  "env_missing = env_ex\<lparr>eval_result := None\<rparr>"

definition env_raise :: env where
  "env_raise = env_ex\<lparr>forward := (\<lambda>m b. if m = model_ex then Some 2 else None)\<rparr>"

definition env_empty :: env where
  "env_empty = env_ex\<lparr>comms_eval_peers := []\<rparr>"

text \<open>Peer 1 with score 0.8 leaves the evaluation list; later, tracked as inactive
  with score 0.45, it is back. Peer 7 of eight has the score 0.8.\<close>

definition env_absent :: env where
  "env_absent = env_ex\<lparr>comms_eval_peers := [2], comms_inactive_peers := [1], eval_result := None\<rparr>"

definition env_back :: env where
  "env_back = env_ex\<lparr>comms_eval_peers := [1], comms_inactive_peers := [], eval_result := None\<rparr>"

definition st_c7 :: validator where
  "st_c7 = st_ex\<lparr>moving_avg_scores := [0, 8 / 10, 0], eval_peers := [1, 2]\<rparr>"

definition st_c7_tracked :: validator where
  "st_c7_tracked = st_ex\<lparr>moving_avg_scores := [0, 45 / 100, 0], eval_peers := [2],
     inactive_scores := [(1, (11, 8 / 10))], current_window := 13, sync_window := 12\<rparr>"

definition st_c8 :: validator where
  "st_c8 = (init_validator 8 model_ex \<lparr>lr = 1 / 2\<rparr> \<lparr>last_epoch = 0, last_lr = 1 / 2\<rparr> 10)
     \<lparr>moving_avg_scores := [0, 0, 0, 0, 0, 0, 0, 8 / 10], eval_peers := [7]\<rparr>"

section \<open>Properties\<close>

text \<open>The definitions to unfold when an example is evaluated.\<close>

lemmas ex_defs = cfg_ex_def env_ex_def sd_ex_def st_ex_def init_validator_def model_ex_def
  forward_ex_def se_ex_def st0_ex_def startup_def load_peers_def

lemmas run_defs = window_iteration_def begin_window_def refresh_peers_def slash_inactive_def
  evaluate_and_update_def original_state_def load_state_dicts_def try_body_def
  score_selected_peer_def evaluate_peer_def evaluate_own_def evaluate_random_def
  apply_gradient_to_def sample_size_def py_int_def update_scores_def improvement_def
  weights_after_evaluation_def weights_after_missing_def positive_mask_def
  set_weights_periodically_def missing_submission_def create_checkpoint_def update_model_def
  optimizer_step_def scheduler_step_def set_weights_and_log_def min_power_normalization_def
  default_epsilon_def adopt_catch_up_def Let_def

subsection \<open>Masks, sums and the two weight computations\<close>

lemma state_of_and_then_done:
  "and_then r f = Done s' \<Longrightarrow> \<exists>s. r = Done s \<and> f s = Done s'"
  by (cases r) simp_all

lemma masked_assign_select:
  "length m = length xs \<Longrightarrow>
   masked_assign m (map (\<lambda>x. 0) xs) (map f (masked_select m xs)) =
   map2 (\<lambda>b x. if b then f x else (0::real)) m xs"
proof (induction m xs rule: list_induct2)
  case Nil
  show ?case by simp
next
  case (Cons b bs x xs)
  then show ?case by (cases b) simp_all
qed

lemma sum_list_masked:
  "length m = length xs \<Longrightarrow>
   sum_list (map2 (\<lambda>b x. if b then f x else (0::real)) m xs) = sum_list (map f (masked_select m xs))"
proof (induction m xs rule: list_induct2)
  case Nil
  show ?case by simp
next
  case (Cons b bs x xs)
  then show ?case by simp
qed

lemma sum_list_divide_const:
  "sum_list (map (\<lambda>x. f x / c) xs) = sum_list (map f xs) / (c::real)"
  by (induction xs) (simp_all add: add_divide_distrib)

lemma length_positive_mask: "length (positive_mask st) = length (moving_avg_scores st)"
  by (simp add: positive_mask_def)

lemma positive_mask_nth:
  "i < length (moving_avg_scores st) \<Longrightarrow>
   positive_mask st ! i = (moving_avg_scores st ! i > 0 \<and> i \<in> evaluated_uids st)"
  by (simp add: positive_mask_def)

lemma masked_select_pos:
  "length m = length xs \<Longrightarrow> \<forall>i < length xs. m ! i \<longrightarrow> 0 < xs ! i \<Longrightarrow>
   \<forall>x \<in> set (masked_select m xs). (0::real) < x"
proof (induction m xs rule: list_induct2)
  case Nil
  show ?case by simp
next
  case (Cons b bs x xs)
  from Cons.prems have hd: "b \<longrightarrow> 0 < x" by (metis length_Cons nth_Cons_0 zero_less_Suc)
  from Cons.prems have "\<forall>i < length xs. bs ! i \<longrightarrow> 0 < xs ! i" by fastforce
  with Cons.IH have "\<forall>x \<in> set (masked_select bs xs). 0 < x" by blast
  with hd show ?case by simp
qed

lemma masked_select_nonempty:
  "length m = length xs \<Longrightarrow> True \<in> set m \<Longrightarrow> masked_select m xs \<noteq> []"
proof (induction m xs rule: list_induct2)
  case Nil
  then show ?case by simp
next
  case (Cons b bs x xs)
  then show ?case by (cases b) simp_all
qed

lemma sum_list_pos_real:
  "xs \<noteq> [] \<Longrightarrow> \<forall>x \<in> set xs. (0::real) < x \<Longrightarrow> 0 < sum_list xs"
  by (induction xs) (auto intro: add_pos_nonneg sum_list_nonneg less_imp_le)

lemma selected_positive:
  "\<forall>x \<in> set (masked_select (positive_mask st) (moving_avg_scores st)). 0 < x"
  by (rule masked_select_pos) (simp_all add: length_positive_mask positive_mask_nth)

lemma positive_mask_any:
  "True \<in> set (positive_mask st) \<longleftrightarrow>
   (\<exists>u \<in> evaluated_uids st. u < length (moving_avg_scores st) \<and> moving_avg_scores st ! u > 0)"
  by (auto simp: positive_mask_def)

lemma weights_after_evaluation_Done:
  "weights_after_evaluation st = Done st' \<Longrightarrow>
   st' = st\<lparr>weights :=
     (if True \<in> set (positive_mask st)
      then masked_assign (positive_mask st) (map (\<lambda>x. 0) (moving_avg_scores st))
             (map (\<lambda>x. x / sum_list (masked_select (positive_mask st) (moving_avg_scores st)))
                (masked_select (positive_mask st) (moving_avg_scores st)))
      else map (\<lambda>x. 0) (moving_avg_scores st))\<rparr>"
  by (simp add: weights_after_evaluation_def Let_def split: if_splits)

subsection \<open>Phases that leave the reputation fields alone\<close>

lemma evaluate_own_reputation:
  "evaluate_own cfg e sd st = Inl (err, s) \<Longrightarrow> reputation s = reputation st"
  "evaluate_own cfg e sd st = Inr (a, b, s) \<Longrightarrow> reputation s = reputation st"
  by (auto simp: evaluate_own_def Let_def apply_gradient_to_def reputation_def split: if_splits option.splits prod.splits)

lemma evaluate_random_reputation:
  "evaluate_random cfg e sd orig st = Inl (err, s) \<Longrightarrow> reputation s = reputation st"
  "evaluate_random cfg e sd orig st = Inr (a, b, s) \<Longrightarrow> reputation s = reputation st"
  by (auto simp: evaluate_random_def Let_def apply_gradient_to_def reputation_def split: if_splits option.splits prod.splits)

lemma state_of_and_then_cases:
  "state_of (and_then r f) = (case r of Done s \<Rightarrow> state_of (f s) | Raised err s \<Rightarrow> s)"
  by (cases r) simp_all

lemma and_then_invariant:
  "Q (state_of r) \<Longrightarrow> (\<And>s. r = Done s \<Longrightarrow> Q (state_of (f s))) \<Longrightarrow> Q (state_of (and_then r f))"
  by (cases r) simp_all

lemma weights_after_evaluation_reputation:
  "reputation (state_of (weights_after_evaluation st)) = reputation st"
  by (simp add: weights_after_evaluation_def reputation_def Let_def)

lemma weights_after_missing_reputation:
  "reputation (state_of (weights_after_missing cfg st)) = reputation st"
  by (simp add: weights_after_missing_def reputation_def Let_def)

lemma set_weights_periodically_reputation:
  "reputation (state_of (set_weights_periodically cfg st)) = reputation st"
  by (simp add: set_weights_periodically_def reputation_def)

lemma create_checkpoint_reputation:
  "reputation (state_of (create_checkpoint cfg st)) = reputation st"
  by (simp add: create_checkpoint_def reputation_def)

lemma set_gathered_gradients_reputation:
  "reputation (set_gathered_gradients cfg gs ps st) = reputation st"
  by (induction cfg gs ps st rule: set_gathered_gradients.induct)
     (simp_all add: reputation_def Let_def split: option.splits)

lemma update_model_reputation: "reputation (update_model cfg e st) = reputation st"
proof -
  have a: "reputation (scheduler_step cfg s) = reputation s" for s
    by (simp add: scheduler_step_def reputation_def Let_def)
  have b: "reputation (optimizer_step s) = reputation s" for s
    by (simp add: optimizer_step_def reputation_def)
  have c: "reputation (st\<lparr>grad := Map.empty\<rparr>) = reputation st"
    by (simp add: reputation_def)
  show ?thesis
    by (simp add: update_model_def Let_def a b c set_gathered_gradients_reputation
          split: option.splits)
qed

lemma set_weights_and_log_reputation:
  "reputation (state_of (set_weights_and_log cfg st)) = reputation st"
  by (simp add: set_weights_and_log_def reputation_def Let_def split: option.splits)

lemma load_state_dicts_reputation: "reputation (load_state_dicts orig st) = reputation st"
  by (simp add: load_state_dicts_def reputation_def)

lemma finally_restore_reputation:
  "reputation (state_of (finally_restore orig r)) = reputation (state_of r)"
  by (cases r) (simp_all add: load_state_dicts_reputation)

lemma try_body_reputation:
  "reputation (state_of (try_body cfg e u st)) = reputation (state_of (score_selected_peer cfg e u st))"
proof -
  let ?r0 = "score_selected_peer cfg e u st"
  let ?Q = "\<lambda>s. reputation s = reputation (state_of ?r0)"
  let ?r1 = "and_then ?r0 (create_checkpoint cfg)"
  have 1: "?Q (state_of ?r1)"
    by (cases ?r0) (simp_all add: create_checkpoint_reputation)
  let ?r2 = "and_then ?r1 (\<lambda>s. Done (update_model cfg e s))"
  have 2: "?Q (state_of ?r2)"
    using 1 by (cases ?r1) (simp_all add: update_model_reputation)
  let ?r3 = "and_then ?r2 (set_weights_and_log cfg)"
  have 3: "?Q (state_of ?r3)"
    using 2 by (cases ?r2) (simp_all add: set_weights_and_log_reputation)
  let ?r4 = "and_then ?r3 (\<lambda>s. Done (s\<lparr>global_step := global_step s + 1\<rparr>))"
  have 4: "?Q (state_of ?r4)"
    using 3 by (cases ?r3) (simp_all add: reputation_def)
  then show ?thesis by (simp add: try_body_def)
qed

subsection \<open>The inactivity step\<close>

lemma nonneg_update:
  "\<forall>x \<in> set xs. (0::real) \<le> x \<Longrightarrow> 0 \<le> v \<Longrightarrow> \<forall>x \<in> set (xs[i := v]). 0 \<le> x"
  by (metis insert_iff set_update_subset_insert subsetD)

lemma track_newly_inactive_frame:
  "\<exists>xs. state_of (track_newly_inactive us st) = st\<lparr>inactive_scores := xs\<rparr>"
proof (induction us st rule: track_newly_inactive.induct)
  case (1 st)
  have "st = st\<lparr>inactive_scores := inactive_scores st\<rparr>" by simp
  then show ?case by (metis state_of.simps(1) track_newly_inactive.simps(1))
next
  case (2 u us st)
  show ?case
  proof (cases "map_of (inactive_scores st) u \<noteq> None")
    case True
    with 2 show ?thesis by simp
  next
    case False
    show ?thesis
    proof (cases "u < length (moving_avg_scores st)")
      case True
      with False 2 show ?thesis by auto
    next
      case False
      have "st = st\<lparr>inactive_scores := inactive_scores st\<rparr>" by simp
      with False \<open>\<not> map_of (inactive_scores st) u \<noteq> None\<close> show ?thesis
        by (metis state_of.simps(2) track_newly_inactive.simps(2))
    qed
  qed
qed

lemma track_newly_inactive_tracked:
  "track_newly_inactive us st = Done s \<Longrightarrow> tracked s = tracked st \<union> set us"
proof (induction us st rule: track_newly_inactive.induct)
  case (1 st)
  then show ?case by simp
next
  case (2 u us st)
  show ?case
  proof (cases "map_of (inactive_scores st) u \<noteq> None")
    case True
    then have "u \<in> tracked st" by (auto simp: tracked_def map_of_eq_None_iff)
    with True 2 show ?thesis by auto
  next
    case False
    with 2 show ?thesis by (auto simp: tracked_def split: if_splits)
  qed
qed

lemma track_newly_inactive_distinct:
  "distinct (map fst (inactive_scores st)) \<Longrightarrow>
   distinct (map fst (inactive_scores (state_of (track_newly_inactive us st))))"
proof (induction us st rule: track_newly_inactive.induct)
  case (1 st)
  then show ?case by simp
next
  case (2 u us st)
  show ?case
  proof (cases "map_of (inactive_scores st) u \<noteq> None")
    case True
    with 2 show ?thesis by simp
  next
    case False
    then have "u \<notin> fst ` set (inactive_scores st)" by (simp add: map_of_eq_None_iff)
    with False 2 show ?thesis by (auto split: if_splits)
  qed
qed

lemma penalties_frame:
  "\<exists>xs ys. state_of (apply_inactivity_penalties items st) =
     st\<lparr>moving_avg_scores := ys, inactive_scores := xs\<rparr>"
proof (induction items st rule: apply_inactivity_penalties.induct)
  case (1 st)
  have "st = st\<lparr>moving_avg_scores := moving_avg_scores st, inactive_scores := inactive_scores st\<rparr>"
    by simp
  then show ?case by (metis state_of.simps(1) apply_inactivity_penalties.simps(1))
next
  case (2 u since items st)
  show ?case
  proof (cases "u \<in> set (eval_peers st)")
    case True
    with 2 show ?thesis by auto
  next
    case False
    show ?thesis
    proof (cases "u < length (moving_avg_scores st)")
      case True
      with False 2 show ?thesis by auto
    next
      case False
      have "st = st\<lparr>moving_avg_scores := moving_avg_scores st, inactive_scores := inactive_scores st\<rparr>"
        by simp
      with False \<open>u \<notin> set (eval_peers st)\<close> show ?thesis
        by (metis state_of.simps(2) apply_inactivity_penalties.simps(2))
    qed
  qed
qed

lemma penalties_nonneg:
  "scores_nonneg st \<Longrightarrow> scores_nonneg (state_of (apply_inactivity_penalties items st))"
proof (induction items st rule: apply_inactivity_penalties.induct)
  case (1 st)
  then show ?case by simp
next
  case (2 u since items st)
  show ?case
  proof (cases "u \<in> set (eval_peers st)")
    case True
    from "2.prems" have "scores_nonneg (st\<lparr>inactive_scores := filter (\<lambda>kv. fst kv \<noteq> u) (inactive_scores st)\<rparr>)"
      by (simp add: scores_nonneg_def)
    from "2.IH"(1)[OF True this] True show ?thesis by simp
  next
    case False
    show ?thesis
    proof (cases "u < length (moving_avg_scores st)")
      case True
      from "2.prems" True have "0 \<le> moving_avg_scores st ! u * (75 / 100)"
        by (simp add: scores_nonneg_def)
      with "2.prems" have "\<forall>x \<in> set ((moving_avg_scores st)[u := moving_avg_scores st ! u * (75 / 100)]). 0 \<le> x"
        unfolding scores_nonneg_def by (rule nonneg_update)
      then have "scores_nonneg
         (st\<lparr>moving_avg_scores := (moving_avg_scores st)[u := moving_avg_scores st ! u * (75 / 100)]\<rparr>)"
        by (simp add: scores_nonneg_def)
      from "2.IH"(2)[OF False True this] False True show ?thesis by simp
    next
      case False
      with \<open>u \<notin> set (eval_peers st)\<close> "2.prems" show ?thesis by simp
    qed
  qed
qed

lemma penalties_inactive:
  "apply_inactivity_penalties items st = Done s \<Longrightarrow>
   inactive_scores s =
     filter (\<lambda>kv. \<not> (fst kv \<in> fst ` set items \<and> fst kv \<in> set (eval_peers st))) (inactive_scores st)"
proof (induction items st rule: apply_inactivity_penalties.induct)
  case (1 st)
  then show ?case by simp
next
  case (2 u since items st)
  show ?case
  proof (cases "u \<in> set (eval_peers st)")
    case True
    with 2 have "inactive_scores s =
       filter (\<lambda>kv. \<not> (fst kv \<in> fst ` set items \<and> fst kv \<in> set (eval_peers st)))
         (filter (\<lambda>kv. fst kv \<noteq> u) (inactive_scores st))"
      by simp
    also have "\<dots> = filter (\<lambda>kv. \<not> (fst kv \<in> fst ` set ((u, since) # items) \<and> fst kv \<in> set (eval_peers st)))
         (inactive_scores st)"
      using True by (auto intro: filter_cong)
    finally show ?thesis .
  next
    case False
    with 2 have "inactive_scores s =
       filter (\<lambda>kv. \<not> (fst kv \<in> fst ` set items \<and> fst kv \<in> set (eval_peers st))) (inactive_scores st)"
      by (simp split: if_splits)
    also have "\<dots> = filter (\<lambda>kv. \<not> (fst kv \<in> fst ` set ((u, since) # items) \<and> fst kv \<in> set (eval_peers st)))
         (inactive_scores st)"
      using False by (auto intro: filter_cong)
    finally show ?thesis .
  qed
qed

lemma penalties_scores:
  "apply_inactivity_penalties items st = Done s \<Longrightarrow> distinct (map fst items) \<Longrightarrow>
   length (moving_avg_scores s) = length (moving_avg_scores st) \<and>
   (\<forall>v < length (moving_avg_scores st). moving_avg_scores s ! v =
      (if v \<in> fst ` set items \<and> v \<notin> set (eval_peers st)
       then moving_avg_scores st ! v * (75 / 100) else moving_avg_scores st ! v))"
proof (induction items st rule: apply_inactivity_penalties.induct)
  case (1 st)
  then show ?case by simp
next
  case (2 u since items st)
  from "2.prems" have d: "distinct (map fst items)" and nu: "u \<notin> fst ` set items" by auto
  show ?case
  proof (cases "u \<in> set (eval_peers st)")
    case True
    with 2 d have "length (moving_avg_scores s) = length (moving_avg_scores st) \<and>
      (\<forall>v < length (moving_avg_scores st). moving_avg_scores s ! v =
        (if v \<in> fst ` set items \<and> v \<notin> set (eval_peers st)
         then moving_avg_scores st ! v * (75 / 100) else moving_avg_scores st ! v))"
      by simp
    with True show ?thesis by auto
  next
    case False
    with "2.prems" have lt: "u < length (moving_avg_scores st)" by (simp split: if_splits)
    let ?st = "st\<lparr>moving_avg_scores := (moving_avg_scores st)[u := moving_avg_scores st ! u * (75 / 100)]\<rparr>"
    from False lt "2.prems" have run: "apply_inactivity_penalties items ?st = Done s" by simp
    from "2.IH"(2)[OF False lt run d]
    have ih: "length (moving_avg_scores s) = length (moving_avg_scores st)"
      "\<And>v. v < length (moving_avg_scores st) \<Longrightarrow> moving_avg_scores s ! v =
        (if v \<in> fst ` set items \<and> v \<notin> set (eval_peers st)
         then (moving_avg_scores st)[u := moving_avg_scores st ! u * (75 / 100)] ! v * (75 / 100)
         else (moving_avg_scores st)[u := moving_avg_scores st ! u * (75 / 100)] ! v)"
      by simp_all
    show ?thesis
    proof (intro conjI allI impI)
      show "length (moving_avg_scores s) = length (moving_avg_scores st)" by (rule ih)
    next
      fix v assume v: "v < length (moving_avg_scores st)"
      show "moving_avg_scores s ! v =
        (if v \<in> fst ` set ((u, since) # items) \<and> v \<notin> set (eval_peers st)
         then moving_avg_scores st ! v * (75 / 100) else moving_avg_scores st ! v)"
      proof (cases "v = u")
        case True
        with ih(2)[OF v] nu False lt show ?thesis by simp
      next
        case False
        with ih(2)[OF v] show ?thesis by auto
      qed
    qed
  qed
qed

subsection \<open>Scores after an evaluation and after a missing submission\<close>

lemma missing_submission_reputation:
  "u < length (moving_avg_scores st) \<Longrightarrow>
   reputation (state_of (missing_submission cfg u st)) =
     ((moving_avg_scores st)[u := moving_avg_scores st ! u * (5 / 10)],
      insert u (evaluated_uids st), inactive_scores st, eval_peers st, binary_moving_averages st)"
  by (simp add: missing_submission_def weights_after_missing_reputation) (simp add: reputation_def)

lemma missing_submission_out_of_range:
  "\<not> u < length (moving_avg_scores st) \<Longrightarrow> missing_submission cfg u st = Raised IndexError st"
  by (simp add: missing_submission_def)

lemma update_scores_Done:
  "update_scores cfg u (lbo, lao, lbr, lar) st = Done s \<Longrightarrow>
   u < length (moving_avg_scores st) \<and>
   last_evaluation s = Some
     \<lparr>loss_before_own = lbo, loss_after_own = lao, loss_before_random = lbr,
      loss_after_random = lar, raw_score = improvement lbo lao,
      improvement_own = improvement lbo lao, improvement_random = improvement lbr lar,
      binary_indicator = (if improvement lbo lao > improvement lbr lar then 1 else - 1),
      final_score = improvement lbo lao *
        (((1 - ma_alpha cfg) * (case binary_moving_averages st u of None \<Rightarrow> 0 | Some b \<Rightarrow> b)
          + ma_alpha cfg * real_of_int (if improvement lbo lao > improvement lbr lar then 1 else - 1)) / 2)\<rparr>"
  by (auto simp: update_scores_def Let_def split: if_splits)

lemma update_scores_touch:
  "length (moving_avg_scores (state_of (update_scores cfg u losses st))) = length (moving_avg_scores st)"
  "i \<noteq> u \<Longrightarrow> moving_avg_scores (state_of (update_scores cfg u losses st)) ! i = moving_avg_scores st ! i"
  "inactive_scores (state_of (update_scores cfg u losses st)) = inactive_scores st"
  "eval_peers (state_of (update_scores cfg u losses st)) = eval_peers st"
  "evaluated_uids st \<subseteq> evaluated_uids (state_of (update_scores cfg u losses st))"
  by (auto simp: update_scores_def Let_def split: prod.splits)

lemma update_scores_nonneg:
  "scores_nonneg st \<Longrightarrow> scores_nonneg (state_of (update_scores cfg u losses st))"
  by (auto simp: update_scores_def Let_def scores_nonneg_def split: prod.splits
           dest!: set_update_subset_insert [THEN subsetD])

lemma last_evaluation_and_then_frames:
  "last_evaluation (state_of (weights_after_evaluation st)) = last_evaluation st"
  "last_evaluation (state_of (set_weights_periodically cfg st)) = last_evaluation st"
  by (simp_all add: weights_after_evaluation_def set_weights_periodically_def Let_def)

lemma evaluate_peer_Done:
  assumes "evaluate_peer cfg e u sd st = Done st'"
  shows "\<exists>lbo lao lbr lar s1 s2 s3.
     evaluate_own cfg e sd st = Inr (lbo, lao, s1) \<and>
     evaluate_random cfg e sd (model st) s1 = Inr (lbr, lar, s2) \<and>
     update_scores cfg u (lbo, lao, lbr, lar) s2 = Done s3 \<and>
     last_evaluation st' = last_evaluation s3"
proof -
  from assms obtain lbo lao s1 where own: "evaluate_own cfg e sd st = Inr (lbo, lao, s1)"
    by (auto simp: evaluate_peer_def Let_def split: sum.splits prod.splits)
  with assms obtain lbr lar s2 where
    rnd: "evaluate_random cfg e sd (model st) s1 = Inr (lbr, lar, s2)"
    by (auto simp: evaluate_peer_def Let_def split: sum.splits prod.splits)
  from assms own rnd have run: "and_then (and_then (update_scores cfg u (lbo, lao, lbr, lar) s2)
       weights_after_evaluation) (set_weights_periodically cfg) = Done st'"
    by (simp add: evaluate_peer_def Let_def)
  then obtain s4 where s4: "and_then (update_scores cfg u (lbo, lao, lbr, lar) s2)
       weights_after_evaluation = Done s4" and s5: "set_weights_periodically cfg s4 = Done st'"
    by (auto dest: state_of_and_then_done)
  from s4 obtain s3 where s3: "update_scores cfg u (lbo, lao, lbr, lar) s2 = Done s3"
    and w: "weights_after_evaluation s3 = Done s4"
    by (auto dest: state_of_and_then_done)
  have "last_evaluation st' = last_evaluation s4"
    using last_evaluation_and_then_frames(2)[of cfg s4] s5 by simp
  also have "\<dots> = last_evaluation s3"
    using last_evaluation_and_then_frames(1)[of s3] w by simp
  finally show ?thesis using own rnd s3 by blast
qed

text \<open>
  Claim C6. After a successful evaluation, the variables bound by it hold the measured
  mean losses, and for non-negative losses \<open>improvement_own\<close> is
  \<open>(loss_before_own - loss_after_own) / loss_before_own\<close>, or 0 when \<open>loss_before_own\<close>
  is 0; likewise \<open>improvement_random\<close>; \<open>raw_score\<close> is \<open>improvement_own\<close>; the binary
  indicator is 1 when \<open>improvement_own > improvement_random\<close> and -1 otherwise. Losses
  2.0 and 1.5 give the raw score 0.25, and with \<open>improvement_random = 0.1\<close> the
  indicator 1.
\<close>

theorem C6_improvement_and_indicator:
  assumes "evaluate_peer cfg e u sd st = Done st'"
  shows "\<exists>r s1 s2.
     last_evaluation st' = Some r \<and>
     evaluate_own cfg e sd st = Inr (loss_before_own r, loss_after_own r, s1) \<and>
     evaluate_random cfg e sd (model st) s1 = Inr (loss_before_random r, loss_after_random r, s2) \<and>
     (0 \<le> loss_before_own r \<longrightarrow>
        improvement_own r =
          (if loss_before_own r = 0 then 0
           else (loss_before_own r - loss_after_own r) / loss_before_own r)) \<and>
     (0 \<le> loss_before_random r \<longrightarrow>
        improvement_random r =
          (if loss_before_random r = 0 then 0
           else (loss_before_random r - loss_after_random r) / loss_before_random r)) \<and>
     raw_score r = improvement_own r \<and>
     binary_indicator r = (if improvement_own r > improvement_random r then 1 else - 1) \<and>
     (loss_before_own r = 2 \<and> loss_after_own r = 15 / 10 \<longrightarrow>
        raw_score r = 25 / 100 \<and> (improvement_random r = 1 / 10 \<longrightarrow> binary_indicator r = 1))"
proof -
  from evaluate_peer_Done[OF assms] obtain lbo lao lbr lar s1 s2 s3 where
    own: "evaluate_own cfg e sd st = Inr (lbo, lao, s1)" and
    rnd: "evaluate_random cfg e sd (model st) s1 = Inr (lbr, lar, s2)" and
    upd: "update_scores cfg u (lbo, lao, lbr, lar) s2 = Done s3" and
    le: "last_evaluation st' = last_evaluation s3"
    by blast
  let ?r = "\<lparr>loss_before_own = lbo, loss_after_own = lao, loss_before_random = lbr,
      loss_after_random = lar, raw_score = improvement lbo lao,
      improvement_own = improvement lbo lao, improvement_random = improvement lbr lar,
      binary_indicator = (if improvement lbo lao > improvement lbr lar then 1 else - 1),
      final_score = improvement lbo lao *
        (((1 - ma_alpha cfg) * (case binary_moving_averages s2 u of None \<Rightarrow> 0 | Some b \<Rightarrow> b)
          + ma_alpha cfg * real_of_int (if improvement lbo lao > improvement lbr lar then 1 else - 1)) / 2)\<rparr>"
  have r: "last_evaluation st' = Some ?r"
    using update_scores_Done[OF upd] le by simp
  have c1: "0 \<le> loss_before_own ?r \<longrightarrow>
        improvement_own ?r =
          (if loss_before_own ?r = 0 then 0
           else (loss_before_own ?r - loss_after_own ?r) / loss_before_own ?r)"
    by (simp add: improvement_def)
  have c2: "0 \<le> loss_before_random ?r \<longrightarrow>
        improvement_random ?r =
          (if loss_before_random ?r = 0 then 0
           else (loss_before_random ?r - loss_after_random ?r) / loss_before_random ?r)"
    by (simp add: improvement_def)
  have c3: "raw_score ?r = improvement_own ?r"
    by simp
  have c4: "binary_indicator ?r = (if improvement_own ?r > improvement_random ?r then 1 else - 1)"
    by simp
  have c5: "loss_before_own ?r = 2 \<and> loss_after_own ?r = 15 / 10 \<longrightarrow>
        raw_score ?r = 25 / 100 \<and> (improvement_random ?r = 1 / 10 \<longrightarrow> binary_indicator ?r = 1)"
    by (simp add: improvement_def)
  have own': "evaluate_own cfg e sd st = Inr (loss_before_own ?r, loss_after_own ?r, s1)"
    using own by simp
  have rnd': "evaluate_random cfg e sd (model st) s1 =
      Inr (loss_before_random ?r, loss_after_random ?r, s2)"
    using rnd by simp
  from r own' rnd' c1 c2 c3 c4 c5 show ?thesis
    by blast
qed

lemma ex_own:
  "evaluate_own cfg_ex env_ex sd_ex st_ex =
     Inr (2, 15 / 10, st_ex\<lparr>model := [(''w'', [1 / 2])], grad := [''w'' \<mapsto> [1]]\<rparr>)"
  by (simp add: evaluate_own_def cfg_ex_def env_ex_def sd_ex_def st_ex_def init_validator_def
        model_ex_def forward_ex_def sample_size_def py_int_def apply_gradient_to_def Let_def)

lemma ex_random:
  "evaluate_random cfg_ex env_ex sd_ex model_ex
     (st_ex\<lparr>model := [(''w'', [1 / 2])], grad := [''w'' \<mapsto> [1]]\<rparr>) =
     Inr (1, 9 / 10, st_ex\<lparr>model := model_ex, grad := [''w'' \<mapsto> [1]]\<rparr>)"
  by (simp add: evaluate_random_def cfg_ex_def env_ex_def sd_ex_def st_ex_def init_validator_def
        model_ex_def forward_ex_def sample_size_def py_int_def apply_gradient_to_def Let_def)

lemma model_st_ex: "model st_ex = model_ex"
  by (simp add: st_ex_def init_validator_def)

lemma exec_done_eq: "is_done r \<Longrightarrow> r = Done (state_of r)"
  by (cases r) simp_all

lemma ex_evaluate_peer_done: "is_done (evaluate_peer cfg_ex env_ex 1 sd_ex st_ex)"
  by (simp add: evaluate_peer_def ex_own ex_random model_st_ex update_scores_def Let_def
        weights_after_evaluation_def set_weights_periodically_def)
     (simp add: st_ex_def init_validator_def cfg_ex_def)

text \<open>The scenario of claim C6, measured by the forward pass \<open>forward_ex\<close>.\<close>

theorem C6_improvement_and_indicator_witness:
  "is_done (evaluate_peer cfg_ex env_ex 1 sd_ex st_ex) \<and>
   (\<exists>r. last_evaluation (state_of (evaluate_peer cfg_ex env_ex 1 sd_ex st_ex)) = Some r \<and>
        loss_before_own r = 2 \<and> loss_after_own r = 15 / 10 \<and> raw_score r = 25 / 100 \<and>
        improvement_random r = 1 / 10 \<and> binary_indicator r = 1)"
proof -
  let ?run = "evaluate_peer cfg_ex env_ex 1 sd_ex st_ex"
  have d: "is_done ?run" by (rule ex_evaluate_peer_done)
  then have eq: "?run = Done (state_of ?run)" by (rule exec_done_eq)
  from C6_improvement_and_indicator[OF eq] obtain r s1 s2 where
    r: "last_evaluation (state_of ?run) = Some r" and
    own: "evaluate_own cfg_ex env_ex sd_ex st_ex = Inr (loss_before_own r, loss_after_own r, s1)" and
    rnd: "evaluate_random cfg_ex env_ex sd_ex (model st_ex) s1 =
            Inr (loss_before_random r, loss_after_random r, s2)" and
    io: "0 \<le> loss_before_own r \<longrightarrow> improvement_own r =
          (if loss_before_own r = 0 then 0
           else (loss_before_own r - loss_after_own r) / loss_before_own r)" and
    ir: "0 \<le> loss_before_random r \<longrightarrow> improvement_random r =
          (if loss_before_random r = 0 then 0
           else (loss_before_random r - loss_after_random r) / loss_before_random r)" and
    raw: "raw_score r = improvement_own r" and
    bi: "binary_indicator r = (if improvement_own r > improvement_random r then 1 else - 1)"
    by blast
  from own have l1: "loss_before_own r = 2" "loss_after_own r = 15 / 10"
    and s1: "s1 = st_ex\<lparr>model := [(''w'', [1 / 2])], grad := [''w'' \<mapsto> [1]]\<rparr>"
    by (simp_all add: ex_own)
  from rnd have l2: "loss_before_random r = 1" "loss_after_random r = 9 / 10"
    by (simp_all add: s1 model_st_ex ex_random)
  from io l1 have io': "improvement_own r = 25 / 100" by simp
  from ir l2 have ir': "improvement_random r = 1 / 10" by simp
  from bi io' ir' have "binary_indicator r = 1" by simp
  with d r l1 raw io' ir' show ?thesis by auto
qed

subsection \<open>The weights on the two branches\<close>

lemma weights_after_missing_Done:
  "weights_after_missing cfg st = Done st' \<Longrightarrow>
   (\<forall>u \<in> evaluated_uids st. u < length (moving_avg_scores st)) \<and>
   st' = st\<lparr>weights :=
     (if True \<in> set (positive_mask st)
      then masked_assign (positive_mask st) (map (\<lambda>x. 0) (moving_avg_scores st))
             (min_power_normalization (masked_select (positive_mask st) (moving_avg_scores st))
                (power_normalisation cfg) default_epsilon)
      else map (\<lambda>x. 0) (moving_avg_scores st))\<rparr>"
  by (simp add: weights_after_missing_def Let_def split: if_splits)

lemma weights_after_evaluation_range:
  "weights_after_evaluation st = Done st' \<Longrightarrow>
   \<forall>u \<in> evaluated_uids st. u < length (moving_avg_scores st)"
  by (simp add: weights_after_evaluation_def Let_def split: if_splits)

lemma min_power_normalization_map:
  "min_power_normalization xs p eps =
   map (\<lambda>x. if sum_list (map (\<lambda>x. x powr p) xs) > eps
             then x powr p / sum_list (map (\<lambda>x. x powr p) xs) else 0) xs"
  by (simp add: min_power_normalization_def Let_def)

lemma any_positive_mask:
  "\<forall>u \<in> evaluated_uids st. u < length (moving_avg_scores st) \<Longrightarrow>
   True \<in> set (positive_mask st) \<longleftrightarrow> any_positive st"
  by (auto simp: positive_mask_any any_positive_def)

lemma weights_after_evaluation_formula:
  assumes "weights_after_evaluation st = Done st'"
  shows "weights st' =
    map2 (\<lambda>b x. if b then x / sum_list (masked_select (positive_mask st) (moving_avg_scores st))
                  else 0)
      (positive_mask st) (moving_avg_scores st)"
proof (cases "True \<in> set (positive_mask st)")
  case True
  with weights_after_evaluation_Done[OF assms] show ?thesis
    by (simp add: masked_assign_select length_positive_mask)
next
  case False
  then have "\<forall>i < length (positive_mask st). \<not> positive_mask st ! i"
    by (metis (full_types) nth_mem)
  then have "map2 (\<lambda>b x. if b then x / sum_list (masked_select (positive_mask st) (moving_avg_scores st))
                  else 0) (positive_mask st) (moving_avg_scores st) =
      map (\<lambda>x. 0) (moving_avg_scores st)"
    by (simp add: list_eq_iff_nth_eq length_positive_mask)
  with False weights_after_evaluation_Done[OF assms] show ?thesis by simp
qed

lemma weights_after_missing_formula:
  assumes "weights_after_missing cfg st = Done st'"
  shows "weights st' =
    map2 (\<lambda>b x. if b \<and> powered_sum cfg st > default_epsilon
                  then x powr power_normalisation cfg / powered_sum cfg st else 0)
      (positive_mask st) (moving_avg_scores st)"
proof (cases "True \<in> set (positive_mask st)")
  case True
  with weights_after_missing_Done[OF assms] have "weights st' =
      masked_assign (positive_mask st) (map (\<lambda>x. 0) (moving_avg_scores st))
        (map (\<lambda>x. if powered_sum cfg st > default_epsilon
                   then x powr power_normalisation cfg / powered_sum cfg st else 0)
           (masked_select (positive_mask st) (moving_avg_scores st)))"
    unfolding powered_sum_def by (simp add: min_power_normalization_map)
  also have "\<dots> = map2 (\<lambda>b x. if b then (if powered_sum cfg st > default_epsilon
                   then x powr power_normalisation cfg / powered_sum cfg st else 0) else 0)
      (positive_mask st) (moving_avg_scores st)"
    by (rule masked_assign_select) (rule length_positive_mask)
  also have "\<dots> = map2 (\<lambda>b x. if b \<and> powered_sum cfg st > default_epsilon
                  then x powr power_normalisation cfg / powered_sum cfg st else 0)
      (positive_mask st) (moving_avg_scores st)"
    by (rule arg_cong[where f = "\<lambda>f. map2 f (positive_mask st) (moving_avg_scores st)"])
       (intro ext, simp)
  finally show ?thesis .
next
  case False
  then have "\<forall>i < length (positive_mask st). \<not> positive_mask st ! i"
    by (metis (full_types) nth_mem)
  then have "map2 (\<lambda>b x. if b \<and> powered_sum cfg st > default_epsilon
                  then x powr power_normalisation cfg / powered_sum cfg st else 0)
      (positive_mask st) (moving_avg_scores st) = map (\<lambda>x. 0) (moving_avg_scores st)"
    by (simp add: list_eq_iff_nth_eq length_positive_mask)
  with False weights_after_missing_Done[OF assms] show ?thesis by simp
qed

lemma linear_weights_sum:
  assumes "weights_after_evaluation st = Done st'"
  shows "if any_positive st then sum_list (weights st') = 1 else \<forall>w \<in> set (weights st'). w = 0"
proof -
  let ?m = "positive_mask st" and ?xs = "moving_avg_scores st"
  let ?sel = "masked_select ?m ?xs"
  have len: "length ?m = length ?xs" by (rule length_positive_mask)
  from weights_after_evaluation_range[OF assms]
  have any: "True \<in> set ?m \<longleftrightarrow> any_positive st" by (rule any_positive_mask)
  show ?thesis
  proof (cases "any_positive st")
    case True
    with any have t: "True \<in> set ?m" by simp
    with weights_after_evaluation_Done[OF assms]
    have "weights st' = masked_assign ?m (map (\<lambda>x. 0) ?xs) (map (\<lambda>x. x / sum_list ?sel) ?sel)"
      by simp
    then have w: "weights st' = map2 (\<lambda>b x. if b then x / sum_list ?sel else 0) ?m ?xs"
      by (simp add: masked_assign_select[OF len])
    have "?sel \<noteq> []" using len t by (rule masked_select_nonempty)
    then have pos: "0 < sum_list ?sel" using selected_positive by (rule sum_list_pos_real)
    have "sum_list (weights st') = sum_list (map (\<lambda>x. x / sum_list ?sel) ?sel)"
      unfolding w using len by (rule sum_list_masked)
    also have "\<dots> = sum_list (map (\<lambda>x. x) ?sel) / sum_list ?sel"
      by (rule sum_list_divide_const)
    also have "\<dots> = 1" using pos by simp
    finally show ?thesis using True by simp
  next
    case False
    with any have "True \<notin> set ?m" by simp
    with weights_after_evaluation_Done[OF assms]
    have "weights st' = map (\<lambda>x. 0) ?xs" by simp
    with False show ?thesis by simp
  qed
qed

lemma power_weights_sum:
  assumes "weights_after_missing cfg st = Done st'"
  shows "if any_positive st \<and> powered_sum cfg st > default_epsilon
         then sum_list (weights st') = 1 else \<forall>w \<in> set (weights st'). w = 0"
proof -
  let ?m = "positive_mask st" and ?xs = "moving_avg_scores st"
  let ?sel = "masked_select ?m ?xs"
  let ?p = "power_normalisation cfg"
  let ?S = "sum_list (map (\<lambda>x. x powr ?p) ?sel)"
  have S: "powered_sum cfg st = ?S" by (simp add: powered_sum_def)
  have len: "length ?m = length ?xs" by (rule length_positive_mask)
  from weights_after_missing_Done[OF assms]
  have rng: "\<forall>u \<in> evaluated_uids st. u < length ?xs" and
    st': "st' = st\<lparr>weights :=
     (if True \<in> set ?m
      then masked_assign ?m (map (\<lambda>x. 0) ?xs) (min_power_normalization ?sel ?p default_epsilon)
      else map (\<lambda>x. 0) ?xs)\<rparr>"
    by simp_all
  from rng have any: "True \<in> set ?m \<longleftrightarrow> any_positive st" by (rule any_positive_mask)
  show ?thesis
  proof (cases "any_positive st")
    case True
    with any st' have "weights st' = masked_assign ?m (map (\<lambda>x. 0) ?xs)
        (map (\<lambda>x. if ?S > default_epsilon then x powr ?p / ?S else 0) ?sel)"
      by (simp add: min_power_normalization_map)
    then have w: "weights st' =
        map2 (\<lambda>b x. if b then (if ?S > default_epsilon then x powr ?p / ?S else 0) else 0) ?m ?xs"
      by (simp add: masked_assign_select[OF len])
    show ?thesis
    proof (cases "?S > default_epsilon")
      case big: True
      have eps: "0 < default_epsilon" by (simp add: default_epsilon_def)
      have "sum_list (weights st') =
          sum_list (map (\<lambda>x. if ?S > default_epsilon then x powr ?p / ?S else 0) ?sel)"
        unfolding w using len by (rule sum_list_masked)
      also have "\<dots> = sum_list (map (\<lambda>x. x powr ?p / ?S) ?sel)"
        using big by simp
      also have "\<dots> = sum_list (map (\<lambda>x. x powr ?p) ?sel) / ?S"
        by (rule sum_list_divide_const)
      also have "\<dots> = 1" using big eps by simp
      finally show ?thesis using True big by (simp add: S)
    next
      case False
      then have "\<forall>w \<in> set (weights st'). w = 0" unfolding w by (auto simp: set_zip)
      with False show ?thesis by (simp add: S)
    qed
  next
    case False
    with any st' have "weights st' = map (\<lambda>x. 0) ?xs" by simp
    with False show ?thesis by simp
  qed
qed

lemma reputation_positive_mask:
  "reputation s = reputation t \<Longrightarrow> positive_mask s = positive_mask t"
  by (simp add: reputation_def positive_mask_def)

lemma reputation_any_positive:
  "reputation s = reputation t \<Longrightarrow> any_positive s = any_positive t"
  by (simp add: reputation_def any_positive_def)

lemma reputation_powered_sum:
  assumes "reputation s = reputation t"
  shows "powered_sum cfg s = powered_sum cfg t"
proof -
  from assms have "moving_avg_scores s = moving_avg_scores t"
    by (simp add: reputation_def)
  moreover from assms have "positive_mask s = positive_mask t"
    by (rule reputation_positive_mask)
  ultimately show ?thesis by (simp add: powered_sum_def)
qed

lemma weights_after_evaluation_Done_reputation:
  "weights_after_evaluation st = Done s \<Longrightarrow> reputation s = reputation st"
  using weights_after_evaluation_reputation[of st] by simp

lemma weights_after_missing_Done_reputation:
  "weights_after_missing cfg st = Done s \<Longrightarrow> reputation s = reputation st"
  using weights_after_missing_reputation[of cfg st] by simp

lemma set_weights_periodically_Done:
  "set_weights_periodically cfg st = Done s \<Longrightarrow> weights s = weights st \<and> reputation s = reputation st"
  using set_weights_periodically_reputation[of cfg st]
  by (auto simp: set_weights_periodically_def split: if_splits)

lemma evaluate_peer_weights:
  assumes "evaluate_peer cfg e u sd st = Done s"
  shows "\<exists>s3 s4. weights_after_evaluation s3 = Done s4 \<and> weights s = weights s4 \<and>
           reputation s = reputation s3"
proof -
  from assms obtain lbo lao s1 where own: "evaluate_own cfg e sd st = Inr (lbo, lao, s1)"
    by (auto simp: evaluate_peer_def Let_def split: sum.splits prod.splits)
  with assms obtain lbr lar s2 where
    rnd: "evaluate_random cfg e sd (model st) s1 = Inr (lbr, lar, s2)"
    by (auto simp: evaluate_peer_def Let_def split: sum.splits prod.splits)
  from assms own rnd have run: "and_then (and_then (update_scores cfg u (lbo, lao, lbr, lar) s2)
       weights_after_evaluation) (set_weights_periodically cfg) = Done s"
    by (simp add: evaluate_peer_def Let_def)
  then obtain s4 where s4: "and_then (update_scores cfg u (lbo, lao, lbr, lar) s2)
       weights_after_evaluation = Done s4" and s5: "set_weights_periodically cfg s4 = Done s"
    by (auto dest: state_of_and_then_done)
  from s4 obtain s3 where w: "weights_after_evaluation s3 = Done s4"
    by (auto dest: state_of_and_then_done)
  from set_weights_periodically_Done[OF s5] weights_after_evaluation_Done_reputation[OF w]
  have "weights s = weights s4" "reputation s = reputation s3" by simp_all
  with w show ?thesis by blast
qed

lemma missing_submission_weights:
  assumes "missing_submission cfg u st = Done s"
  shows "\<exists>s0. weights_after_missing cfg s0 = Done s \<and> reputation s = reputation s0"
proof -
  let ?s0 = "st\<lparr>moving_avg_scores :=
                   (moving_avg_scores st)[u := moving_avg_scores st ! u * (5 / 10)],
                 evaluated_uids := insert u (evaluated_uids st)\<rparr>"
  from assms have w: "weights_after_missing cfg ?s0 = Done s"
    by (simp add: missing_submission_def split: if_splits)
  from weights_after_missing_Done_reputation[OF w] w show ?thesis by blast
qed

text \<open>
  Claim C4, as amended. Where the weight vector has just been recomputed: after a
  successful evaluation the weights sum to 1 if an evaluated peer has a positive moving
  average score, and are all 0 otherwise; after a missing submission they sum to 1 if an
  evaluated peer has a positive score and the sum of the positive scores raised to the
  configured power exceeds \<open>epsilon = 1e-8\<close>, and are all 0 otherwise.
\<close>

theorem C4_weights_sum_amended:
  "(evaluate_peer cfg e u sd st = Done s \<longrightarrow>
      (if any_positive s then sum_list (weights s) = 1 else \<forall>w \<in> set (weights s). w = 0)) \<and>
   (missing_submission cfg u st = Done s' \<longrightarrow>
      (if any_positive s' \<and> powered_sum cfg s' > default_epsilon
       then sum_list (weights s') = 1 else \<forall>w \<in> set (weights s'). w = 0))"
proof (intro conjI impI)
  assume "evaluate_peer cfg e u sd st = Done s"
  from evaluate_peer_weights[OF this] obtain s3 s4 where
    w: "weights_after_evaluation s3 = Done s4" and ws: "weights s = weights s4" and
    rep: "reputation s = reputation s3"
    by blast
  from linear_weights_sum[OF w] ws reputation_any_positive[OF rep]
  show "if any_positive s then sum_list (weights s) = 1 else \<forall>w \<in> set (weights s). w = 0"
    by simp
next
  assume "missing_submission cfg u st = Done s'"
  from missing_submission_weights[OF this] obtain s0 where
    w: "weights_after_missing cfg s0 = Done s'" and rep: "reputation s' = reputation s0"
    by blast
  from power_weights_sum[OF w] reputation_any_positive[OF rep] reputation_powered_sum[OF rep]
  show "if any_positive s' \<and> powered_sum cfg s' > default_epsilon
        then sum_list (weights s') = 1 else \<forall>w \<in> set (weights s'). w = 0"
    by simp
qed

lemma ex_missing_c4:
  "missing_submission cfg_ex 0 st_c4 =
     Done (st_c4\<lparr>moving_avg_scores := [1 / 100000, 0, 0], evaluated_uids := {0},
                 weights := [0, 0, 0]\<rparr>)"
  by (simp add: missing_submission_def weights_after_missing_def positive_mask_def st_c4_def
        st_ex_def init_validator_def cfg_ex_def min_power_normalization_def default_epsilon_def
        Let_def upt_rec power2_eq_square)

text \<open>
  Claim C4 as stated fails after a missing submission: peer 0 is evaluated and its score
  \<open>1e-5\<close> is positive, but its square is below \<open>epsilon\<close> and every weight is 0.
\<close>

theorem C4_weights_sum_counterexample:
  "is_done (missing_submission cfg_ex 0 st_c4) \<and>
   0 \<in> evaluated_uids (state_of (missing_submission cfg_ex 0 st_c4)) \<and>
   moving_avg_scores (state_of (missing_submission cfg_ex 0 st_c4)) ! 0 > 0 \<and>
   \<not> \<bar>sum_list (weights (state_of (missing_submission cfg_ex 0 st_c4))) - 1\<bar> \<le> 1 / 10 ^ 6"
  by (simp add: ex_missing_c4)

lemma ex_evaluate_peer_result:
  "\<exists>s. evaluate_peer cfg_ex env_ex 1 sd_ex st_ex = Done s \<and>
       moving_avg_scores s = [0, 1 / 800, 0] \<and> evaluated_uids s = {1}"
  by (simp add: evaluate_peer_def ex_own ex_random model_st_ex update_scores_def Let_def
        weights_after_evaluation_def set_weights_periodically_def improvement_def)
     (simp add: st_ex_def init_validator_def cfg_ex_def numeral_3_eq_3)

lemma ex_missing_c8:
  "\<exists>s. missing_submission cfg_ex 7 st_c8 = Done s \<and>
       moving_avg_scores s = [0, 0, 0, 0, 0, 0, 0, 4 / 10] \<and> evaluated_uids s = {7}"
  by (simp add: missing_submission_def weights_after_missing_def st_c8_def init_validator_def
        Let_def)

lemma ex_powered_sum:
  "moving_avg_scores s = [0, 0, 0, 0, 0, 0, 0, 4 / 10] \<Longrightarrow> evaluated_uids s = {7} \<Longrightarrow>
   powered_sum cfg_ex s = 16 / 100"
  by (simp add: powered_sum_def positive_mask_def cfg_ex_def upt_rec power2_eq_square)

text \<open>The two branches at concrete inputs: peer 1 evaluated from the initial state, and
  the missing submission of peer 7 with score 0.8.\<close>

theorem C4_weights_sum_amended_witness:
  "(\<exists>s. evaluate_peer cfg_ex env_ex 1 sd_ex st_ex = Done s \<and> any_positive s \<and>
        sum_list (weights s) = 1) \<and>
   (\<exists>s. missing_submission cfg_ex 7 st_c8 = Done s \<and> any_positive s \<and>
        powered_sum cfg_ex s > default_epsilon \<and> sum_list (weights s) = 1)"
proof
  from ex_evaluate_peer_result obtain s where
    run: "evaluate_peer cfg_ex env_ex 1 sd_ex st_ex = Done s" and
    sc: "moving_avg_scores s = [0, 1 / 800, 0]" and ev: "evaluated_uids s = {1}"
    by blast
  have pos: "any_positive s" by (simp add: any_positive_def sc ev)
  from C4_weights_sum_amended[of cfg_ex env_ex 1 sd_ex st_ex s] run pos
  have "sum_list (weights s) = 1" by simp
  with run pos show "\<exists>s. evaluate_peer cfg_ex env_ex 1 sd_ex st_ex = Done s \<and> any_positive s \<and>
        sum_list (weights s) = 1" by blast
next
  from ex_missing_c8 obtain s where
    run: "missing_submission cfg_ex 7 st_c8 = Done s" and
    sc: "moving_avg_scores s = [0, 0, 0, 0, 0, 0, 0, 4 / 10]" and ev: "evaluated_uids s = {7}"
    by blast
  have pos: "any_positive s" by (simp add: any_positive_def sc ev)
  have big: "powered_sum cfg_ex s > default_epsilon"
    by (simp add: ex_powered_sum[OF sc ev] default_epsilon_def)
  from C4_weights_sum_amended[of cfg_ex _ 7 _ st_c8 _ s] run pos big
  have "sum_list (weights s) = 1" by simp
  with run pos big show "\<exists>s. missing_submission cfg_ex 7 st_c8 = Done s \<and> any_positive s \<and>
        powered_sum cfg_ex s > default_epsilon \<and> sum_list (weights s) = 1" by blast
qed

text \<open>
  Claim C3, evaluated. Three evaluated peers have the scores 0.4, 0 and 0.2 and the
  configured power is 2. Peer 1 is evaluated successfully with unchanged losses, so its
  score stays 0, and the weights computed on that path are the scores divided by their
  sum: 2/3, 0, 1/3. From the same scores the branch of a missing submission computes
  0.8, 0, 0.2, the weights of the claim.
\<close>

theorem C3_power_normalisation_only_after_missing:
  "power_normalisation cfg_ex = 2 \<and>
   moving_avg_scores st_c3 = [4 / 10, 0, 2 / 10] \<and> evaluated_uids st_c3 = {0, 1, 2} \<and>
   (\<exists>s. evaluate_peer cfg_ex env_flat 1 sd_ex st_c3 = Done s \<and>
        moving_avg_scores s = [4 / 10, 0, 2 / 10] \<and> evaluated_uids s = {0, 1, 2} \<and>
        weights s = [2 / 3, 0, 1 / 3]) \<and>
   (\<exists>s. missing_submission cfg_ex 1 st_c3 = Done s \<and>
        moving_avg_scores s = [4 / 10, 0, 2 / 10] \<and> evaluated_uids s = {0, 1, 2} \<and>
        weights s = [8 / 10, 0, 2 / 10])"
proof -
  have a: "power_normalisation cfg_ex = 2 \<and>
   moving_avg_scores st_c3 = [4 / 10, 0, 2 / 10] \<and> evaluated_uids st_c3 = {0, 1, 2}"
    by (simp add: cfg_ex_def st_c3_def)
  have b: "\<exists>s. evaluate_peer cfg_ex env_flat 1 sd_ex st_c3 = Done s \<and>
        moving_avg_scores s = [4 / 10, 0, 2 / 10] \<and> evaluated_uids s = {0, 1, 2} \<and>
        weights s = [2 / 3, 0, 1 / 3]"
    by (simp add: env_flat_def st_c3_def ex_defs run_defs upt_rec numeral_3_eq_3) auto
  have c: "\<exists>s. missing_submission cfg_ex 1 st_c3 = Done s \<and>
        moving_avg_scores s = [4 / 10, 0, 2 / 10] \<and> evaluated_uids s = {0, 1, 2} \<and>
        weights s = [8 / 10, 0, 2 / 10]"
    by (simp add: st_c3_def ex_defs run_defs upt_rec numeral_3_eq_3 power2_eq_square) auto
  from a b c show ?thesis by blast
qed

subsection \<open>What one iteration does to the scores\<close>

lemma touches_only_reputation:
  "reputation s = reputation st \<Longrightarrow> touches_only u st s"
  by (simp add: reputation_def touches_only_def scores_nonneg_def)

lemma touches_only_after:
  "touches_only u st s \<Longrightarrow> reputation s' = reputation s \<Longrightarrow> touches_only u st s'"
  by (simp add: reputation_def touches_only_def scores_nonneg_def)

lemma touches_only_before:
  "reputation s1 = reputation st \<Longrightarrow> touches_only u s1 s \<Longrightarrow> touches_only u st s"
  by (simp add: reputation_def touches_only_def scores_nonneg_def)

lemma update_scores_touches: "touches_only u st (state_of (update_scores cfg u losses st))"
  unfolding touches_only_def
  by (simp add: update_scores_touch update_scores_nonneg)

lemma missing_submission_touches: "touches_only u st (state_of (missing_submission cfg u st))"
proof (cases "u < length (moving_avg_scores st)")
  case True
  let ?s = "state_of (missing_submission cfg u st)"
  from missing_submission_reputation[OF True, of cfg]
  have sc: "moving_avg_scores ?s = (moving_avg_scores st)[u := moving_avg_scores st ! u * (5 / 10)]"
    and ev: "evaluated_uids ?s = insert u (evaluated_uids st)"
    and ia: "inactive_scores ?s = inactive_scores st"
    and ep: "eval_peers ?s = eval_peers st"
    by (simp_all add: reputation_def)
  have nn: "scores_nonneg ?s" if a: "scores_nonneg st"
  proof -
    from a True have "0 \<le> moving_avg_scores st ! u * (5 / 10)"
      by (simp add: scores_nonneg_def)
    with a have "\<forall>x \<in> set ((moving_avg_scores st)[u := moving_avg_scores st ! u * (5 / 10)]). 0 \<le> x"
      unfolding scores_nonneg_def by (rule nonneg_update)
    then show ?thesis by (simp add: scores_nonneg_def sc)
  qed
  have "length (moving_avg_scores ?s) = length (moving_avg_scores st)"
    by (simp add: sc)
  moreover have "\<forall>i. i \<noteq> u \<longrightarrow> moving_avg_scores ?s ! i = moving_avg_scores st ! i"
    by (simp add: sc)
  moreover have "evaluated_uids st \<subseteq> evaluated_uids ?s"
    unfolding ev by (rule subset_insertI)
  ultimately show ?thesis
    unfolding touches_only_def using ia ep nn by blast
next
  case False
  then show ?thesis
    by (simp add: missing_submission_out_of_range touches_only_def)
qed

lemma evaluate_peer_touches: "touches_only u st (state_of (evaluate_peer cfg e u sd st))"
proof (cases "evaluate_own cfg e sd st")
  case (Inl a)
  then obtain err s where a: "evaluate_own cfg e sd st = Inl (err, s)" by (cases a) simp
  then have "reputation s = reputation st" by (rule evaluate_own_reputation(1))
  then have "touches_only u st s" by (rule touches_only_reputation)
  moreover from a have "state_of (evaluate_peer cfg e u sd st) = s"
    by (simp add: evaluate_peer_def)
  ultimately show ?thesis by simp
next
  case (Inr b)
  then obtain lbo lao s1 where own: "evaluate_own cfg e sd st = Inr (lbo, lao, s1)"
    by (cases b) simp
  then have r1: "reputation s1 = reputation st" by (rule evaluate_own_reputation(2))
  show ?thesis
  proof (cases "evaluate_random cfg e sd (model st) s1")
    case (Inl a)
    then obtain err s where a: "evaluate_random cfg e sd (model st) s1 = Inl (err, s)"
      by (cases a) simp
    then have "reputation s = reputation s1" by (rule evaluate_random_reputation(1))
    with r1 have "reputation s = reputation st" by simp
    then have "touches_only u st s" by (rule touches_only_reputation)
    moreover from a own have "state_of (evaluate_peer cfg e u sd st) = s"
      by (simp add: evaluate_peer_def)
    ultimately show ?thesis by simp
  next
    case rnd: (Inr c)
    then obtain lbr lar s2 where rnd': "evaluate_random cfg e sd (model st) s1 = Inr (lbr, lar, s2)"
      by (cases c) simp
    then have "reputation s2 = reputation s1" by (rule evaluate_random_reputation(2))
    with r1 have r2: "reputation s2 = reputation st" by simp
    let ?upd = "update_scores cfg u (lbo, lao, lbr, lar) s2"
    let ?w = "and_then ?upd weights_after_evaluation"
    let ?f = "and_then ?w (set_weights_periodically cfg)"
    have run: "evaluate_peer cfg e u sd st = ?f"
      using own rnd' by (simp add: evaluate_peer_def)
    have 1: "reputation (state_of ?w) = reputation (state_of ?upd)"
      by (cases ?upd) (simp_all add: weights_after_evaluation_reputation)
    have "reputation (state_of ?f) = reputation (state_of ?w)"
      by (cases ?w) (simp_all add: set_weights_periodically_reputation)
    with 1 have 2: "reputation (state_of ?f) = reputation (state_of ?upd)" by simp
    have "touches_only u s2 (state_of ?upd)" by (rule update_scores_touches)
    then have "touches_only u s2 (state_of ?f)"
      using 2 by (rule touches_only_after)
    with r2 have "touches_only u st (state_of ?f)"
      by (rule touches_only_before)
    then show ?thesis by (simp only: run)
  qed
qed

lemma score_selected_peer_touches:
  "touches_only u st (state_of (score_selected_peer cfg e u st))"
  by (simp add: score_selected_peer_def evaluate_peer_touches missing_submission_touches
        split: option.splits prod.splits)

lemma try_body_touches: "touches_only u st (state_of (try_body cfg e u st))"
  using score_selected_peer_touches[of u st cfg e] try_body_reputation[of cfg e u st]
  by (rule touches_only_after)

lemma selected_uid_member: "eval_peers st \<noteq> [] \<Longrightarrow> selected_uid e st \<in> set (eval_peers st)"
  by (simp add: selected_uid_def)

lemma evaluate_and_update_nonempty:
  "eval_peers st \<noteq> [] \<Longrightarrow>
   evaluate_and_update cfg e st =
     finally_restore (original_state st) (try_body cfg e (selected_uid e st) st)"
  by (simp add: evaluate_and_update_def selected_uid_def Let_def)

lemma evaluate_and_update_empty:
  "eval_peers st = [] \<Longrightarrow>
   evaluate_and_update cfg e st = Done (st\<lparr>global_step := global_step st + 1\<rparr>)"
  by (simp add: evaluate_and_update_def)

lemma evaluate_and_update_touches:
  "touches_only (selected_uid e st) st (state_of (evaluate_and_update cfg e st))"
proof (cases "eval_peers st = []")
  case True
  then show ?thesis
    by (simp add: evaluate_and_update_empty touches_only_def scores_nonneg_def)
next
  case False
  have "touches_only (selected_uid e st) st (state_of (try_body cfg e (selected_uid e st) st))"
    by (rule try_body_touches)
  moreover have "reputation (state_of (evaluate_and_update cfg e st)) =
      reputation (state_of (try_body cfg e (selected_uid e st) st))"
    using False by (simp add: evaluate_and_update_nonempty finally_restore_reputation)
  ultimately show ?thesis by (rule touches_only_after)
qed

lemma track_newly_inactive_scores:
  "moving_avg_scores (state_of (track_newly_inactive us st)) = moving_avg_scores st"
  "eval_peers (state_of (track_newly_inactive us st)) = eval_peers st"
  "evaluated_uids (state_of (track_newly_inactive us st)) = evaluated_uids st"
proof -
  from track_newly_inactive_frame[of us st] obtain xs where
    "state_of (track_newly_inactive us st) = st\<lparr>inactive_scores := xs\<rparr>" by blast
  then show "moving_avg_scores (state_of (track_newly_inactive us st)) = moving_avg_scores st"
    "eval_peers (state_of (track_newly_inactive us st)) = eval_peers st"
    "evaluated_uids (state_of (track_newly_inactive us st)) = evaluated_uids st"
    by simp_all
qed

lemma penalties_fields:
  "eval_peers (state_of (apply_inactivity_penalties items st)) = eval_peers st"
  "evaluated_uids (state_of (apply_inactivity_penalties items st)) = evaluated_uids st"
proof -
  from penalties_frame[of items st] obtain xs ys where
    "state_of (apply_inactivity_penalties items st) =
       st\<lparr>moving_avg_scores := ys, inactive_scores := xs\<rparr>" by blast
  then show "eval_peers (state_of (apply_inactivity_penalties items st)) = eval_peers st"
    "evaluated_uids (state_of (apply_inactivity_penalties items st)) = evaluated_uids st"
    by simp_all
qed

lemma penalties_length:
  "length (moving_avg_scores (state_of (apply_inactivity_penalties items st))) =
   length (moving_avg_scores st)"
  by (induction items st rule: apply_inactivity_penalties.induct) simp_all

lemma penalties_distinct:
  "keys_distinct st \<Longrightarrow> keys_distinct (state_of (apply_inactivity_penalties items st))"
proof (induction items st rule: apply_inactivity_penalties.induct)
  case (1 st)
  then show ?case by simp
next
  case (2 u since items st)
  show ?case
  proof (cases "u \<in> set (eval_peers st)")
    case True
    from "2.prems" have "keys_distinct
        (st\<lparr>inactive_scores := filter (\<lambda>kv. fst kv \<noteq> u) (inactive_scores st)\<rparr>)"
      by (simp add: keys_distinct_def distinct_map_filter)
    from "2.IH"(1)[OF True this] True show ?thesis by simp
  next
    case False
    show ?thesis
    proof (cases "u < length (moving_avg_scores st)")
      case True
      from "2.prems" have "keys_distinct
         (st\<lparr>moving_avg_scores := (moving_avg_scores st)[u := moving_avg_scores st ! u * (75 / 100)]\<rparr>)"
        by (simp add: keys_distinct_def)
      from "2.IH"(2)[OF False True this] False True show ?thesis by simp
    next
      case False
      with \<open>u \<notin> set (eval_peers st)\<close> "2.prems" show ?thesis by simp
    qed
  qed
qed

lemma penalties_spare_active:
  "v \<in> set (eval_peers st) \<Longrightarrow>
   moving_avg_scores (state_of (apply_inactivity_penalties items st)) ! v = moving_avg_scores st ! v"
proof (induction items st rule: apply_inactivity_penalties.induct)
  case (1 st)
  then show ?case by simp
next
  case (2 u since items st)
  show ?case
  proof (cases "u \<in> set (eval_peers st)")
    case True
    with 2 show ?thesis by simp
  next
    case False
    with "2.prems" have ne: "u \<noteq> v" by auto
    show ?thesis
    proof (cases "u < length (moving_avg_scores st)")
      case True
      with False "2.IH"(2) "2.prems" ne show ?thesis by simp
    next
      case False
      with \<open>u \<notin> set (eval_peers st)\<close> show ?thesis by simp
    qed
  qed
qed

lemma slash_inactive_frame:
  "\<exists>xs ys. state_of (slash_inactive e st) = st\<lparr>moving_avg_scores := ys, inactive_scores := xs\<rparr>"
proof (cases "track_newly_inactive (comms_inactive_peers e) st")
  case (Done s)
  from track_newly_inactive_frame[of "comms_inactive_peers e" st] Done obtain xs where
    s: "s = st\<lparr>inactive_scores := xs\<rparr>" by auto
  from penalties_frame[of "inactive_scores s" s] obtain xs' ys' where
    "state_of (apply_inactivity_penalties (inactive_scores s) s) =
       s\<lparr>moving_avg_scores := ys', inactive_scores := xs'\<rparr>" by blast
  with s have "state_of (apply_inactivity_penalties (inactive_scores s) s) =
       st\<lparr>moving_avg_scores := ys', inactive_scores := xs'\<rparr>" by simp
  with Done have "state_of (slash_inactive e st) =
       st\<lparr>moving_avg_scores := ys', inactive_scores := xs'\<rparr>"
    by (simp add: slash_inactive_def)
  then show ?thesis by blast
next
  case (Raised err s)
  from track_newly_inactive_frame[of "comms_inactive_peers e" st] Raised obtain xs where
    "s = st\<lparr>inactive_scores := xs\<rparr>" by auto
  then have "s = st\<lparr>moving_avg_scores := moving_avg_scores st, inactive_scores := xs\<rparr>" by simp
  with Raised have "state_of (slash_inactive e st) =
       st\<lparr>moving_avg_scores := moving_avg_scores st, inactive_scores := xs\<rparr>"
    by (simp add: slash_inactive_def)
  then show ?thesis by blast
qed

lemma slash_inactive_invariants:
  "length (moving_avg_scores (state_of (slash_inactive e st))) = length (moving_avg_scores st)"
  "evaluated_uids (state_of (slash_inactive e st)) = evaluated_uids st"
  "eval_peers (state_of (slash_inactive e st)) = eval_peers st"
  "scores_nonneg st \<Longrightarrow> scores_nonneg (state_of (slash_inactive e st))"
  "keys_distinct st \<Longrightarrow> keys_distinct (state_of (slash_inactive e st))"
proof -
  let ?t = "track_newly_inactive (comms_inactive_peers e) st"
  have sc: "moving_avg_scores (state_of ?t) = moving_avg_scores st"
    by (rule track_newly_inactive_scores)
  have so: "state_of (slash_inactive e st) =
      (case ?t of Done s \<Rightarrow> state_of (apply_inactivity_penalties (inactive_scores s) s)
                | Raised err s \<Rightarrow> s)"
    by (simp add: slash_inactive_def state_of_and_then_cases)
  show "length (moving_avg_scores (state_of (slash_inactive e st))) = length (moving_avg_scores st)"
    using sc by (cases ?t) (simp_all add: so penalties_length)
  show "evaluated_uids (state_of (slash_inactive e st)) = evaluated_uids st"
    using track_newly_inactive_scores(3)[of "comms_inactive_peers e" st]
    by (cases ?t) (simp_all add: so penalties_fields)
  show "eval_peers (state_of (slash_inactive e st)) = eval_peers st"
    using track_newly_inactive_scores(2)[of "comms_inactive_peers e" st]
    by (cases ?t) (simp_all add: so penalties_fields)
  show "scores_nonneg (state_of (slash_inactive e st))" if "scores_nonneg st"
  proof -
    from that sc have "scores_nonneg (state_of ?t)" by (simp add: scores_nonneg_def)
    then show ?thesis by (cases ?t) (simp_all add: so penalties_nonneg)
  qed
  show "keys_distinct (state_of (slash_inactive e st))" if "keys_distinct st"
  proof -
    from that have "keys_distinct (state_of ?t)"
      unfolding keys_distinct_def by (rule track_newly_inactive_distinct)
    then show ?thesis by (cases ?t) (simp_all add: so penalties_distinct)
  qed
qed

lemma refresh_peers_fields:
  "moving_avg_scores (refresh_peers e st) = moving_avg_scores st"
  "inactive_scores (refresh_peers e st) = inactive_scores st"
  "evaluated_uids (refresh_peers e st) = evaluated_uids st"
  "eval_peers (refresh_peers e st) = comms_eval_peers e"
  by (simp_all add: refresh_peers_def)

lemma begin_window_Some:
  "begin_window cfg e st = Some r \<Longrightarrow>
   \<exists>cw. r = slash_inactive e (refresh_peers e (st\<lparr>current_window := cw\<rparr>))"
  by (auto simp: begin_window_def split: option.splits)

lemma begin_window_invariants:
  assumes "begin_window cfg e st = Some r"
  shows "length (moving_avg_scores (state_of r)) = length (moving_avg_scores st)"
    and "evaluated_uids (state_of r) = evaluated_uids st"
    and "eval_peers (state_of r) = comms_eval_peers e"
    and "scores_nonneg st \<Longrightarrow> scores_nonneg (state_of r)"
    and "keys_distinct st \<Longrightarrow> keys_distinct (state_of r)"
proof -
  from begin_window_Some[OF assms] obtain cw where
    r: "r = slash_inactive e (refresh_peers e (st\<lparr>current_window := cw\<rparr>))" by blast
  let ?s0 = "refresh_peers e (st\<lparr>current_window := cw\<rparr>)"
  show "length (moving_avg_scores (state_of r)) = length (moving_avg_scores st)"
    unfolding r by (simp add: slash_inactive_invariants(1) refresh_peers_fields)
  show "evaluated_uids (state_of r) = evaluated_uids st"
    unfolding r by (simp add: slash_inactive_invariants(2) refresh_peers_fields)
  show "eval_peers (state_of r) = comms_eval_peers e"
    unfolding r by (simp add: slash_inactive_invariants(3) refresh_peers_fields)
  show "scores_nonneg (state_of r)" if "scores_nonneg st"
  proof -
    from that have "scores_nonneg ?s0" by (simp add: scores_nonneg_def refresh_peers_fields)
    then show ?thesis unfolding r by (rule slash_inactive_invariants(4))
  qed
  show "keys_distinct (state_of r)" if "keys_distinct st"
  proof -
    from that have "keys_distinct ?s0" by (simp add: keys_distinct_def refresh_peers_fields)
    then show ?thesis unfolding r by (rule slash_inactive_invariants(5))
  qed
qed

lemma window_iteration_cases:
  assumes "window_iteration cfg e st = Some r"
  obtains (caught_up) cu where "catch_up e = Some cu" "r = Done (adopt_catch_up cu st)"
  | (window) r0 where "catch_up e = None" "begin_window cfg e st = Some r0"
      "r = and_then r0 (evaluate_and_update cfg e)"
  using assms by (auto simp: window_iteration_def split: option.splits)

lemma window_iteration_invariants:
  assumes "window_iteration cfg e st = Some r"
  shows "length (moving_avg_scores (state_of r)) = length (moving_avg_scores st)"
    and "evaluated_uids st \<subseteq> evaluated_uids (state_of r)"
    and "scores_nonneg st \<Longrightarrow> scores_nonneg (state_of r)"
    and "keys_distinct st \<Longrightarrow> keys_distinct (state_of r)"
proof -
  have "length (moving_avg_scores (state_of r)) = length (moving_avg_scores st) \<and>
        evaluated_uids st \<subseteq> evaluated_uids (state_of r) \<and>
        (scores_nonneg st \<longrightarrow> scores_nonneg (state_of r)) \<and>
        (keys_distinct st \<longrightarrow> keys_distinct (state_of r))"
    using assms
  proof (cases rule: window_iteration_cases)
    case (caught_up cu)
    then show ?thesis
      by (simp add: adopt_catch_up_def scores_nonneg_def keys_distinct_def)
  next
    case (window r0)
    note bw = begin_window_invariants[OF window(2)]
    show ?thesis
    proof (cases r0)
      case (Raised err s)
      with window(3) have "state_of r = state_of r0" by simp
      with bw show ?thesis by simp
    next
      case (Done s)
      with window(3) have r: "state_of r = state_of (evaluate_and_update cfg e s)" by simp
      from Done have s: "state_of r0 = s" by simp
      have t: "touches_only (selected_uid e s) s (state_of r)"
        unfolding r by (rule evaluate_and_update_touches)
      from t bw(1) s have "length (moving_avg_scores (state_of r)) = length (moving_avg_scores st)"
        by (simp add: touches_only_def)
      moreover from t bw(2) s have "evaluated_uids st \<subseteq> evaluated_uids (state_of r)"
        by (simp add: touches_only_def)
      moreover from t bw(4) s have "scores_nonneg st \<longrightarrow> scores_nonneg (state_of r)"
        by (simp add: touches_only_def)
      moreover from t bw(5) s have "keys_distinct st \<longrightarrow> keys_distinct (state_of r)"
        by (simp add: touches_only_def keys_distinct_def)
      ultimately show ?thesis by blast
    qed
  qed
  then show "length (moving_avg_scores (state_of r)) = length (moving_avg_scores st)"
    and "evaluated_uids st \<subseteq> evaluated_uids (state_of r)"
    and "scores_nonneg st \<Longrightarrow> scores_nonneg (state_of r)"
    and "keys_distinct st \<Longrightarrow> keys_distinct (state_of r)"
    by simp_all
qed

lemma startup_reputation:
  "moving_avg_scores (startup cfg se (init_validator n m opt sch w)) = replicate n 0"
  "inactive_scores (startup cfg se (init_validator n m opt sch w)) = []"
  by (simp_all add: startup_def load_peers_def init_validator_def Let_def split: option.splits)

lemma reachable_invariants: "reachable cfg st \<Longrightarrow> scores_nonneg st \<and> keys_distinct st"
proof (induction rule: reachable.induct)
  case (start se n m opt sch window)
  show ?case by (simp add: scores_nonneg_def keys_distinct_def startup_reputation)
next
  case (step st e st')
  from window_iteration_invariants(3,4)[OF step.hyps(2)] step.IH show ?case by simp
qed

text \<open>
  Claim C5. Every moving average score is at least 0 in every state the loop reaches from
  the start of the process, where all scores are 0; and each update keeps it so, whatever
  \<open>ma_alpha\<close> is: the update after a successful evaluation, the halving after a missing
  submission, the inactivity penalties, and a whole iteration of the loop, whether it ends
  normally or with an exception.
\<close>

theorem C5_scores_nonnegative:
  "(reachable cfg st \<longrightarrow> (\<forall>i < length (moving_avg_scores st). 0 \<le> moving_avg_scores st ! i)) \<and>
   (scores_nonneg st \<longrightarrow>
      scores_nonneg (state_of (update_scores cfg u losses st)) \<and>
      scores_nonneg (state_of (missing_submission cfg u st)) \<and>
      scores_nonneg (state_of (slash_inactive e st)) \<and>
      (\<forall>r. window_iteration cfg e st = Some r \<longrightarrow> scores_nonneg (state_of r)))"
proof (intro conjI impI allI)
  fix i assume "reachable cfg st" and "i < length (moving_avg_scores st)"
  from reachable_invariants[OF this(1)] this(2) show "0 \<le> moving_avg_scores st ! i"
    by (simp add: scores_nonneg_def)
next
  assume "scores_nonneg st"
  then show "scores_nonneg (state_of (update_scores cfg u losses st))"
    by (rule update_scores_nonneg)
next
  assume "scores_nonneg st"
  with missing_submission_touches[of u st cfg]
  show "scores_nonneg (state_of (missing_submission cfg u st))"
    by (simp add: touches_only_def)
next
  assume "scores_nonneg st"
  then show "scores_nonneg (state_of (slash_inactive e st))"
    by (rule slash_inactive_invariants(4))
next
  fix r assume "scores_nonneg st" and "window_iteration cfg e st = Some r"
  from window_iteration_invariants(3)[OF this(2) this(1)]
  show "scores_nonneg (state_of r)" .
qed

lemma ex_iter1:
  "\<exists>s. window_iteration cfg_ex env_ex st0_ex = Some (Done s) \<and>
       moving_avg_scores s = [0, 1 / 800, 0]"
  by (simp add: ex_defs run_defs upt_rec numeral_3_eq_3)

lemma reachable_st0_ex: "reachable cfg_ex st0_ex"
  unfolding st0_ex_def st_ex_def by (rule reachable.start)

text \<open>A state reached by one iteration in which peer 1 is evaluated.\<close>

theorem C5_scores_nonnegative_witness:
  "\<exists>s. reachable cfg_ex s \<and> moving_avg_scores s = [0, 1 / 800, 0] \<and>
       0 \<le> moving_avg_scores s ! 0 \<and> 0 \<le> moving_avg_scores s ! 1 \<and> 0 \<le> moving_avg_scores s ! 2"
proof -
  from ex_iter1 obtain s where
    it: "window_iteration cfg_ex env_ex st0_ex = Some (Done s)" and
    sc: "moving_avg_scores s = [0, 1 / 800, 0]"
    by blast
  from reachable_st0_ex it have r: "reachable cfg_ex s" by (rule reachable.step)
  from C5_scores_nonnegative[of cfg_ex s] r
  have "\<forall>i < length (moving_avg_scores s). 0 \<le> moving_avg_scores s ! i" by blast
  then have "0 \<le> moving_avg_scores s ! 0 \<and> 0 \<le> moving_avg_scores s ! 1 \<and> 0 \<le> moving_avg_scores s ! 2"
    by (simp add: sc)
  with r sc show ?thesis by blast
qed

subsection \<open>Missing submissions\<close>

lemma run_windows_invariants:
  "run_windows cfg es st = Some r \<Longrightarrow>
   evaluated_uids st \<subseteq> evaluated_uids (state_of r) \<and>
   length (moving_avg_scores (state_of r)) = length (moving_avg_scores st)"
proof (induction es arbitrary: st)
  case Nil
  then show ?case by auto
next
  case (Cons e es)
  from Cons.prems obtain r1 where it: "window_iteration cfg e st = Some r1"
    by (auto split: option.splits)
  note inv = window_iteration_invariants(1,2)[OF it]
  show ?case
  proof (cases r1)
    case (Raised err s)
    with it Cons.prems have "r = r1" by simp
    with inv show ?thesis by simp
  next
    case (Done s)
    with it Cons.prems have "run_windows cfg es s = Some r" by simp
    from Cons.IH[OF this] inv Done show ?thesis by auto
  qed
qed

lemma evaluate_and_update_missing:
  assumes "eval_peers st \<noteq> []"
    and "eval_result e = None \<or> (\<exists>step. eval_result e = Some (None, step))"
  shows "reputation (state_of (evaluate_and_update cfg e st)) =
         reputation (state_of (missing_submission cfg (selected_uid e st) st))"
proof -
  let ?u = "selected_uid e st"
  from assms(2) have "score_selected_peer cfg e ?u st = missing_submission cfg ?u st"
    by (auto simp: score_selected_peer_def)
  with try_body_reputation[of cfg e ?u st]
  have "reputation (state_of (try_body cfg e ?u st)) =
        reputation (state_of (missing_submission cfg ?u st))" by simp
  with assms(1) show ?thesis
    by (simp add: evaluate_and_update_nonempty finally_restore_reputation)
qed

text \<open>
  Claim C8. When the payload of the selected evaluation peer is absent (\<open>comms.get\<close>
  returned nothing, as it does after a timeout, or a tuple without a state dictionary),
  the iteration multiplies that peer's moving average score by exactly 0.5, which is not
  the factor 0.75 of the inactivity penalty, leaves the other scores as they are, and
  adds the peer to the evaluated set; the peer stays in that set in every later
  iteration, so it is in the mask of the weight computation whenever its score is
  positive.
\<close>

theorem C8_missing_submission_halves:
  assumes "eval_peers st \<noteq> []"
    and "eval_result e = None \<or> (\<exists>step. eval_result e = Some (None, step))"
    and "u = selected_uid e st"
    and "u < length (moving_avg_scores st)"
    and "s = state_of (evaluate_and_update cfg e st)"
  shows "moving_avg_scores s = (moving_avg_scores st)[u := moving_avg_scores st ! u * (5 / 10)] \<and>
     moving_avg_scores s ! u = moving_avg_scores st ! u * (5 / 10) \<and>
     (moving_avg_scores st ! u \<noteq> 0 \<longrightarrow>
        moving_avg_scores s ! u \<noteq> moving_avg_scores st ! u * (75 / 100)) \<and>
     evaluated_uids s = insert u (evaluated_uids st) \<and>
     positive_mask s ! u = (0 < moving_avg_scores s ! u) \<and>
     (\<forall>es r. run_windows cfg es s = Some r \<longrightarrow>
        u \<in> evaluated_uids (state_of r) \<and>
        positive_mask (state_of r) ! u = (0 < moving_avg_scores (state_of r) ! u))"
proof -
  from evaluate_and_update_missing[OF assms(1,2), of cfg] assms(3,5)
  have "reputation s = reputation (state_of (missing_submission cfg u st))" by simp
  with missing_submission_reputation[OF assms(4), of cfg]
  have sc: "moving_avg_scores s = (moving_avg_scores st)[u := moving_avg_scores st ! u * (5 / 10)]"
    and ev: "evaluated_uids s = insert u (evaluated_uids st)"
    by (simp_all add: reputation_def)
  from sc assms(4) have at: "moving_avg_scores s ! u = moving_avg_scores st ! u * (5 / 10)"
    by simp
  from sc assms(4) have len: "u < length (moving_avg_scores s)" by simp
  from ev have mem: "u \<in> evaluated_uids s" by simp
  have later: "u \<in> evaluated_uids (state_of r) \<and>
        positive_mask (state_of r) ! u = (0 < moving_avg_scores (state_of r) ! u)"
    if "run_windows cfg es s = Some r" for es r
  proof -
    from run_windows_invariants[OF that] mem len
    have "u \<in> evaluated_uids (state_of r)" "u < length (moving_avg_scores (state_of r))"
      by auto
    then show ?thesis by (simp add: positive_mask_nth)
  qed
  from at have "moving_avg_scores st ! u \<noteq> 0 \<longrightarrow>
        moving_avg_scores s ! u \<noteq> moving_avg_scores st ! u * (75 / 100)"
    by simp
  moreover from len mem have "positive_mask s ! u = (0 < moving_avg_scores s ! u)"
    by (simp add: positive_mask_nth)
  ultimately show ?thesis using sc at ev later by blast
qed

text \<open>The scenario of claim C8: peer 7 with score 0.8 and no payload.\<close>

theorem C8_missing_submission_halves_witness:
  "selected_uid env_missing st_c8 = 7 \<and>
   moving_avg_scores st_c8 ! 7 = 8 / 10 \<and>
   moving_avg_scores (state_of (evaluate_and_update cfg_ex env_missing st_c8)) ! 7 = 4 / 10 \<and>
   7 \<in> evaluated_uids (state_of (evaluate_and_update cfg_ex env_missing st_c8)) \<and>
   positive_mask (state_of (evaluate_and_update cfg_ex env_missing st_c8)) ! 7"
proof -
  have u: "selected_uid env_missing st_c8 = 7"
    by (simp add: selected_uid_def env_missing_def env_ex_def st_c8_def)
  have ep: "eval_peers st_c8 \<noteq> []" by (simp add: st_c8_def)
  have miss: "eval_result env_missing = None \<or> (\<exists>step. eval_result env_missing = Some (None, step))"
    by (simp add: env_missing_def)
  have len: "7 < length (moving_avg_scores st_c8)" by (simp add: st_c8_def)
  have old: "moving_avg_scores st_c8 ! 7 = 8 / 10" by (simp add: st_c8_def)
  let ?s = "state_of (evaluate_and_update cfg_ex env_missing st_c8)"
  from C8_missing_submission_halves[OF ep miss u[symmetric] len refl, of cfg_ex]
  have a: "moving_avg_scores ?s ! 7 = moving_avg_scores st_c8 ! 7 * (5 / 10)"
    and b: "evaluated_uids ?s = insert 7 (evaluated_uids st_c8)"
    and c: "positive_mask ?s ! 7 = (0 < moving_avg_scores ?s ! 7)"
    by blast+
  from a old have a': "moving_avg_scores ?s ! 7 = 4 / 10" by simp
  with c have "positive_mask ?s ! 7" by simp
  with u old a' b show ?thesis by simp
qed

subsection \<open>The snapshot and the \<open>finally\<close> clause\<close>

lemma finally_restore_original:
  "original_state (state_of (finally_restore orig r)) = orig"
  by (cases r) (simp_all add: original_state_def load_state_dicts_def)

lemma slash_inactive_original:
  "original_state (state_of (slash_inactive e st)) = original_state st"
proof -
  from slash_inactive_frame[of e st] obtain xs ys where
    "state_of (slash_inactive e st) = st\<lparr>moving_avg_scores := ys, inactive_scores := xs\<rparr>"
    by blast
  then show ?thesis by (simp add: original_state_def)
qed

lemma begin_window_original:
  assumes "begin_window cfg e st = Some r"
  shows "original_state (state_of r) = original_state st"
proof -
  from begin_window_Some[OF assms] obtain cw where
    "r = slash_inactive e (refresh_peers e (st\<lparr>current_window := cw\<rparr>))" by blast
  then show ?thesis
    by (simp add: slash_inactive_original) (simp add: original_state_def refresh_peers_def)
qed

text \<open>
  Claim C2. An iteration that enters the evaluation phase (no catch-up, the window
  opened without an exception, a non-empty list of evaluation peers) ends, and at its
  end the model parameters, the optimizer state and the scheduler state are those of the
  snapshot taken before the evaluation, which are those at the start of the iteration.
  The iteration may end normally or with an exception, after a received or a missing
  gradient: the statement is about the state at either kind of exit.
\<close>

theorem C2_state_restored_on_every_exit:
  assumes "catch_up e = None"
    and "begin_window cfg e st = Some (Done s)"
    and "eval_peers s \<noteq> []"
  shows "\<exists>r. window_iteration cfg e st = Some r \<and>
     r = finally_restore (original_state s) (try_body cfg e (selected_uid e s) s) \<and>
     original_state (state_of r) = original_state s \<and>
     model (state_of r) = model st \<and> optimizer (state_of r) = optimizer st \<and>
     scheduler (state_of r) = scheduler st"
proof -
  let ?r = "finally_restore (original_state s) (try_body cfg e (selected_uid e s) s)"
  from assms have it: "window_iteration cfg e st = Some ?r"
    by (simp add: window_iteration_def evaluate_and_update_nonempty)
  have o: "original_state (state_of ?r) = original_state s"
    by (rule finally_restore_original)
  from begin_window_original[OF assms(2)] have "original_state s = original_state st" by simp
  with o have "original_state (state_of ?r) = original_state st" by simp
  then have "model (state_of ?r) = model st \<and> optimizer (state_of ?r) = optimizer st \<and>
     scheduler (state_of ?r) = scheduler st"
    by (simp add: original_state_def)
  with it o show ?thesis by blast
qed

text \<open>The three exits at concrete inputs: an exception of the forward pass after the
  peer's gradient has been applied (the parameter is 0.5 when it is raised, 1 after the
  \<open>finally\<close> clause), a missing gradient, and a normal end.\<close>

theorem C2_state_restored_on_every_exit_witness:
  "(\<exists>s r. begin_window cfg_ex env_raise st0_ex = Some (Done s) \<and> eval_peers s = [1] \<and>
      model (state_of (try_body cfg_ex env_raise (selected_uid env_raise s) s)) = [(''w'', [1 / 2])] \<and>
      window_iteration cfg_ex env_raise st0_ex = Some r \<and> \<not> is_done r \<and>
      model (state_of r) = [(''w'', [1])] \<and> optimizer (state_of r) = \<lparr>lr = 1 / 2\<rparr> \<and>
      scheduler (state_of r) = \<lparr>last_epoch = 0, last_lr = 1 / 2\<rparr>) \<and>
   (\<exists>s r. begin_window cfg_ex env_missing st0_ex = Some (Done s) \<and> eval_peers s = [1] \<and>
      window_iteration cfg_ex env_missing st0_ex = Some r \<and> is_done r \<and>
      model (state_of r) = [(''w'', [1])] \<and> optimizer (state_of r) = \<lparr>lr = 1 / 2\<rparr> \<and>
      scheduler (state_of r) = \<lparr>last_epoch = 0, last_lr = 1 / 2\<rparr>) \<and>
   (\<exists>s r. begin_window cfg_ex env_ex st0_ex = Some (Done s) \<and> eval_peers s = [1] \<and>
      window_iteration cfg_ex env_ex st0_ex = Some r \<and> is_done r \<and>
      model (state_of r) = [(''w'', [1])] \<and> optimizer (state_of r) = \<lparr>lr = 1 / 2\<rparr> \<and>
      scheduler (state_of r) = \<lparr>last_epoch = 0, last_lr = 1 / 2\<rparr>)"
proof -
  let ?s = "st0_ex\<lparr>current_window := 12, sync_window := 11, peers := [1, 2],
                       eval_peers := [1], inactive_scores := [(2, (11, 0))]\<rparr>"
  have m0: "model st0_ex = [(''w'', [1])]" "optimizer st0_ex = \<lparr>lr = 1 / 2\<rparr>"
    "scheduler st0_ex = \<lparr>last_epoch = 0, last_lr = 1 / 2\<rparr>"
    by (simp_all add: ex_defs)
  have ep: "eval_peers ?s \<noteq> []" "eval_peers ?s = [1]" by simp_all
  have bw: "begin_window cfg_ex env st0_ex = Some (Done ?s)"
    if "window_polls env = [12]" "comms_peers env = [1, 2]" "comms_eval_peers env = [1]"
       "comms_inactive_peers env = [2]" for env
    using that
    by (simp add: begin_window_def refresh_peers_def slash_inactive_def cfg_ex_def st_ex_def
          init_validator_def se_ex_def st0_ex_def startup_def load_peers_def numeral_3_eq_3)
  have bw1: "begin_window cfg_ex env_raise st0_ex = Some (Done ?s)"
    by (rule bw) (simp_all add: env_raise_def env_ex_def)
  have bw2: "begin_window cfg_ex env_missing st0_ex = Some (Done ?s)"
    by (rule bw) (simp_all add: env_missing_def env_ex_def)
  have bw3: "begin_window cfg_ex env_ex st0_ex = Some (Done ?s)"
    by (rule bw) (simp_all add: env_ex_def)
  have c1: "catch_up env_raise = None" by (simp add: env_raise_def env_ex_def)
  have c2: "catch_up env_missing = None" by (simp add: env_missing_def env_ex_def)
  have c3: "catch_up env_ex = None" by (simp add: env_ex_def)
  from C2_state_restored_on_every_exit[OF c1 bw1 ep(1)] obtain r1 where
    r1: "window_iteration cfg_ex env_raise st0_ex = Some r1"
      "r1 = finally_restore (original_state ?s) (try_body cfg_ex env_raise (selected_uid env_raise ?s) ?s)"
      "model (state_of r1) = model st0_ex" "optimizer (state_of r1) = optimizer st0_ex"
      "scheduler (state_of r1) = scheduler st0_ex"
    by blast
  have tb: "try_body cfg_ex env_raise (selected_uid env_raise ?s) ?s =
      Raised ForwardError (?s\<lparr>model := [(''w'', [1 / 2])], grad := [''w'' \<mapsto> [1]]\<rparr>)"
    by (simp add: selected_uid_def try_body_def score_selected_peer_def evaluate_peer_def
          evaluate_own_def env_raise_def sample_size_def py_int_def apply_gradient_to_def
          Let_def ex_defs)
  from r1(2) tb have nd: "\<not> is_done r1" by simp
  from tb have mid: "model (state_of (try_body cfg_ex env_raise (selected_uid env_raise ?s) ?s)) =
      [(''w'', [1 / 2])]" by simp
  from C2_state_restored_on_every_exit[OF c2 bw2 ep(1)] obtain r2 where
    r2: "window_iteration cfg_ex env_missing st0_ex = Some r2"
      "model (state_of r2) = model st0_ex" "optimizer (state_of r2) = optimizer st0_ex"
      "scheduler (state_of r2) = scheduler st0_ex"
    by blast
  have d2: "is_done r2"
    using r2(1)
    by (auto simp add: env_missing_def ex_defs run_defs upt_rec numeral_3_eq_3)
  from C2_state_restored_on_every_exit[OF c3 bw3 ep(1)] obtain r3 where
    r3: "window_iteration cfg_ex env_ex st0_ex = Some r3"
      "model (state_of r3) = model st0_ex" "optimizer (state_of r3) = optimizer st0_ex"
      "scheduler (state_of r3) = scheduler st0_ex"
    by blast
  have d3: "is_done r3"
    using r3(1) ex_iter1 by auto
  from bw1 ep(2) mid r1(1,3,4,5) nd m0
  have A: "\<exists>s r. begin_window cfg_ex env_raise st0_ex = Some (Done s) \<and> eval_peers s = [1] \<and>
      model (state_of (try_body cfg_ex env_raise (selected_uid env_raise s) s)) = [(''w'', [1 / 2])] \<and>
      window_iteration cfg_ex env_raise st0_ex = Some r \<and> \<not> is_done r \<and>
      model (state_of r) = [(''w'', [1])] \<and> optimizer (state_of r) = \<lparr>lr = 1 / 2\<rparr> \<and>
      scheduler (state_of r) = \<lparr>last_epoch = 0, last_lr = 1 / 2\<rparr>"
    by (intro exI[of _ ?s] exI[of _ r1]) simp
  from bw2 ep(2) r2 d2 m0
  have B: "\<exists>s r. begin_window cfg_ex env_missing st0_ex = Some (Done s) \<and> eval_peers s = [1] \<and>
      window_iteration cfg_ex env_missing st0_ex = Some r \<and> is_done r \<and>
      model (state_of r) = [(''w'', [1])] \<and> optimizer (state_of r) = \<lparr>lr = 1 / 2\<rparr> \<and>
      scheduler (state_of r) = \<lparr>last_epoch = 0, last_lr = 1 / 2\<rparr>"
    by (intro exI[of _ ?s] exI[of _ r2]) simp
  from bw3 ep(2) r3 d3 m0
  have C: "\<exists>s r. begin_window cfg_ex env_ex st0_ex = Some (Done s) \<and> eval_peers s = [1] \<and>
      window_iteration cfg_ex env_ex st0_ex = Some r \<and> is_done r \<and>
      model (state_of r) = [(''w'', [1])] \<and> optimizer (state_of r) = \<lparr>lr = 1 / 2\<rparr> \<and>
      scheduler (state_of r) = \<lparr>last_epoch = 0, last_lr = 1 / 2\<rparr>"
    by (intro exI[of _ ?s] exI[of _ r3]) simp
  from A B C show ?thesis by blast
qed

lemma ex_begin_window:
  "begin_window cfg_ex env_ex st0_ex = Some (Done st_begun)"
  by (simp add: begin_window_def refresh_peers_def slash_inactive_def ex_defs st_begun_def
        numeral_3_eq_3)

text \<open>
  Claim C1, evaluated on the normal path. In the first window of the example the
  validator evaluates peer 1 and then applies the gathered gradient: at the end of the
  \<open>try\<close> body the parameter has moved from 1 to 0.5, the scheduler is at epoch 1 and the
  learning rate is 0.25. The \<open>finally\<close> clause then loads the snapshot taken before the
  evaluation, so the iteration ends with the parameter 1, epoch 0 and learning rate 0.5:
  the step is lost, while \<open>global_step\<close> and the momentum keep their new values.
\<close>

theorem C1_model_update_is_rolled_back:
  "begin_window cfg_ex env_ex st0_ex = Some (Done st_begun) \<and>
   selected_uid env_ex st_begun = 1 \<and>
   model st_begun = [(''w'', [1])] \<and>
   (\<exists>t. try_body cfg_ex env_ex 1 st_begun = Done t \<and>
        model t = [(''w'', [1 / 2])] \<and> optimizer t = \<lparr>lr = 1 / 4\<rparr> \<and>
        scheduler t = \<lparr>last_epoch = 1, last_lr = 1 / 4\<rparr>) \<and>
   (\<exists>s. window_iteration cfg_ex env_ex st0_ex = Some (Done s) \<and>
        model s = [(''w'', [1])] \<and> optimizer s = \<lparr>lr = 1 / 2\<rparr> \<and>
        scheduler s = \<lparr>last_epoch = 0, last_lr = 1 / 2\<rparr> \<and>
        momentum s ''w'' = Some [1] \<and> global_step s = 1)"
proof -
  have a: "selected_uid env_ex st_begun = 1"
    by (simp add: selected_uid_def env_ex_def st_begun_def)
  have b: "model st_begun = [(''w'', [1])]"
    by (simp add: st_begun_def ex_defs)
  have c: "\<exists>t. try_body cfg_ex env_ex 1 st_begun = Done t \<and>
        model t = [(''w'', [1 / 2])] \<and> optimizer t = \<lparr>lr = 1 / 4\<rparr> \<and>
        scheduler t = \<lparr>last_epoch = 1, last_lr = 1 / 4\<rparr>"
    by (simp add: st_begun_def ex_defs run_defs upt_rec numeral_3_eq_3)
  have d: "\<exists>s. window_iteration cfg_ex env_ex st0_ex = Some (Done s) \<and>
        model s = [(''w'', [1])] \<and> optimizer s = \<lparr>lr = 1 / 2\<rparr> \<and>
        scheduler s = \<lparr>last_epoch = 0, last_lr = 1 / 2\<rparr> \<and>
        momentum s ''w'' = Some [1] \<and> global_step s = 1"
    by (simp add: ex_defs run_defs upt_rec numeral_3_eq_3)
  from ex_begin_window a b c d show ?thesis by blast
qed

subsection \<open>An empty list of evaluation peers\<close>

lemma begin_window_frame:
  assumes "begin_window cfg e st = Some r"
  shows "\<exists>cw xs ys. state_of r =
     st\<lparr>current_window := cw, sync_window := sync_window st + 1, peers := comms_peers e,
        eval_peers := comms_eval_peers e, moving_avg_scores := ys, inactive_scores := xs\<rparr>"
proof -
  from begin_window_Some[OF assms] obtain cw where
    r: "r = slash_inactive e (refresh_peers e (st\<lparr>current_window := cw\<rparr>))" by blast
  from slash_inactive_frame[of e "refresh_peers e (st\<lparr>current_window := cw\<rparr>)"]
  obtain xs ys where "state_of r =
      (refresh_peers e (st\<lparr>current_window := cw\<rparr>))\<lparr>moving_avg_scores := ys, inactive_scores := xs\<rparr>"
    unfolding r by blast
  then have "state_of r =
     st\<lparr>current_window := cw, sync_window := sync_window st + 1, peers := comms_peers e,
        eval_peers := comms_eval_peers e, moving_avg_scores := ys, inactive_scores := xs\<rparr>"
    by (simp add: refresh_peers_def)
  then show ?thesis by blast
qed

text \<open>
  Claim C10. When the refreshed list of evaluation peers is empty, and the window has
  opened without an exception (state \<open>s\<close>, after the inactivity penalties), the
  iteration ends there: its final state is \<open>s\<close> with \<open>global_step\<close> one higher than at
  the start. Nothing else has changed since the start of the iteration but the window
  counters, the peer lists and what the inactivity penalties write: no peer is added to
  the evaluated set, the binary averages, the weights and the variables of the last
  evaluation are as before, no weights are submitted, no checkpoint is written, and the
  model, the gradients, the momentum, the optimizer and the scheduler are untouched.
\<close>

theorem C10_empty_eval_peers_ends_early:
  assumes "catch_up e = None"
    and "begin_window cfg e st = Some (Done s)"
    and "comms_eval_peers e = []"
  shows "window_iteration cfg e st = Some (Done (s\<lparr>global_step := global_step st + 1\<rparr>)) \<and>
     global_step s = global_step st \<and>
     evaluated_uids s = evaluated_uids st \<and>
     binary_moving_averages s = binary_moving_averages st \<and>
     weights s = weights st \<and> last_evaluation s = last_evaluation st \<and>
     submitted_weights s = submitted_weights st \<and> checkpoints s = checkpoints st \<and>
     model s = model st \<and> grad s = grad st \<and> momentum s = momentum st \<and>
     optimizer s = optimizer st \<and> scheduler s = scheduler st"
proof -
  from begin_window_frame[OF assms(2)] obtain cw xs ys where
    s: "s = st\<lparr>current_window := cw, sync_window := sync_window st + 1, peers := comms_peers e,
        eval_peers := comms_eval_peers e, moving_avg_scores := ys, inactive_scores := xs\<rparr>"
    by auto
  then have empty: "eval_peers s = []" using assms(3) by simp
  from s have gs: "global_step s = global_step st" by simp
  from assms(1,2) empty gs
  have "window_iteration cfg e st = Some (Done (s\<lparr>global_step := global_step st + 1\<rparr>))"
    by (simp add: window_iteration_def evaluate_and_update_empty)
  moreover from s have "global_step s = global_step st \<and>
     evaluated_uids s = evaluated_uids st \<and>
     binary_moving_averages s = binary_moving_averages st \<and>
     weights s = weights st \<and> last_evaluation s = last_evaluation st \<and>
     submitted_weights s = submitted_weights st \<and> checkpoints s = checkpoints st \<and>
     model s = model st \<and> grad s = grad st \<and> momentum s = momentum st \<and>
     optimizer s = optimizer st \<and> scheduler s = scheduler st"
    by simp
  ultimately show ?thesis by blast
qed

text \<open>An iteration with gathered gradients and an empty evaluation list: peer 2 is
  penalised, the step counter goes from 0 to 1, the parameter stays 1.\<close>

theorem C10_empty_eval_peers_ends_early_witness:
  "\<exists>s. begin_window cfg_ex env_empty st0_ex = Some (Done s) \<and>
       gather_result env_empty \<noteq> None \<and>
       window_iteration cfg_ex env_empty st0_ex = Some (Done (s\<lparr>global_step := 1\<rparr>)) \<and>
       inactive_scores s = [(2, (11, 0))] \<and>
       model s = [(''w'', [1])] \<and> checkpoints s = [] \<and> evaluated_uids s = {}"
proof -
  let ?s = "st0_ex\<lparr>current_window := 12, sync_window := 11, peers := [1, 2],
                    eval_peers := [], inactive_scores := [(2, (11, 0))]\<rparr>"
  have c: "catch_up env_empty = None" and e: "comms_eval_peers env_empty = []"
    and g: "gather_result env_empty \<noteq> None"
    by (simp_all add: env_empty_def env_ex_def)
  have bw: "begin_window cfg_ex env_empty st0_ex = Some (Done ?s)"
    by (simp add: begin_window_def refresh_peers_def slash_inactive_def env_empty_def ex_defs
          numeral_3_eq_3)
  have z: "global_step st0_ex = 0" "model st0_ex = [(''w'', [1])]" "checkpoints st0_ex = []"
    "evaluated_uids st0_ex = {}"
    by (simp_all add: ex_defs)
  from C10_empty_eval_peers_ends_early[OF c bw e] z
  have "window_iteration cfg_ex env_empty st0_ex = Some (Done (?s\<lparr>global_step := 1\<rparr>)) \<and>
       model ?s = [(''w'', [1])] \<and> checkpoints ?s = [] \<and> evaluated_uids ?s = {}"
    by simp
  with bw g show ?thesis
    by (intro exI[of _ ?s]) simp
qed

subsection \<open>The gather peers after a refresh\<close>

text \<open>
  Claim C9, evaluated. At the start of \<open>run\<close> the validator (uid 0) appends itself to the
  gather peers \<open>[1, 2]\<close>. In the loop the list is replaced by what the peer directory
  reports after the refresh, here \<open>[1, 2]\<close> again, and nothing appends the uid.
\<close>

theorem C9_self_inclusion_lost_after_refresh:
  "my_uid cfg_ex = 0 \<and> peers st0_ex = [1, 2, 0] \<and> my_uid cfg_ex \<in> set (peers st0_ex) \<and>
   comms_peers env_ex = [1, 2] \<and>
   (\<exists>s. window_iteration cfg_ex env_ex st0_ex = Some (Done s) \<and> peers s = [1, 2] \<and>
        my_uid cfg_ex \<notin> set (peers s))"
proof -
  have a: "my_uid cfg_ex = 0 \<and> peers st0_ex = [1, 2, 0] \<and> my_uid cfg_ex \<in> set (peers st0_ex) \<and>
   comms_peers env_ex = [1, 2]"
    by (simp add: ex_defs)
  have b: "\<exists>s. window_iteration cfg_ex env_ex st0_ex = Some (Done s) \<and> peers s = [1, 2] \<and>
        my_uid cfg_ex \<notin> set (peers s)"
    by (simp add: ex_defs run_defs upt_rec numeral_3_eq_3)
  from a b show ?thesis by blast
qed

subsection \<open>Decay over consecutive windows\<close>

lemma slash_inactive_Done:
  "slash_inactive e st = Done s \<Longrightarrow>
   \<exists>t. track_newly_inactive (comms_inactive_peers e) st = Done t \<and>
       apply_inactivity_penalties (inactive_scores t) t = Done s"
  unfolding slash_inactive_def by (rule state_of_and_then_done)

lemma track_newly_inactive_Done_fields:
  assumes "track_newly_inactive us st = Done t"
  shows "moving_avg_scores t = moving_avg_scores st" "eval_peers t = eval_peers st"
    "keys_distinct st \<Longrightarrow> keys_distinct t"
proof -
  from assms have t: "state_of (track_newly_inactive us st) = t" by simp
  from track_newly_inactive_scores(1)[of us st] t
  show "moving_avg_scores t = moving_avg_scores st" by simp
  from track_newly_inactive_scores(2)[of us st] t
  show "eval_peers t = eval_peers st" by simp
  show "keys_distinct t" if "keys_distinct st"
    using track_newly_inactive_distinct[of st us] that t by (simp add: keys_distinct_def)
qed

lemma slash_absent:
  assumes "slash_inactive e st = Done s" and "keys_distinct st"
    and "u \<notin> set (eval_peers st)" and "u < length (moving_avg_scores st)"
    and "u \<in> tracked st \<or> u \<in> set (comms_inactive_peers e)"
  shows "moving_avg_scores s ! u = moving_avg_scores st ! u * (75 / 100)" and "u \<in> tracked s"
proof -
  from slash_inactive_Done[OF assms(1)] obtain t where
    tr: "track_newly_inactive (comms_inactive_peers e) st = Done t" and
    pen: "apply_inactivity_penalties (inactive_scores t) t = Done s"
    by blast
  note f = track_newly_inactive_Done_fields[OF tr]
  from track_newly_inactive_tracked[OF tr] assms(5) have ut: "u \<in> tracked t" by auto
  from f(3)[OF assms(2)] have d: "distinct (map fst (inactive_scores t))"
    by (simp add: keys_distinct_def)
  from assms(3) f(2) have na: "u \<notin> set (eval_peers t)" by simp
  from assms(4) f(1) have lt: "u < length (moving_avg_scores t)" by simp
  from penalties_scores[OF pen d] lt ut na
  have "moving_avg_scores s ! u = moving_avg_scores t ! u * (75 / 100)"
    by (simp add: tracked_def)
  with f(1) show "moving_avg_scores s ! u = moving_avg_scores st ! u * (75 / 100)" by simp
  from ut obtain kv where kv: "kv \<in> set (inactive_scores t)" "fst kv = u"
    by (auto simp: tracked_def)
  with na penalties_inactive[OF pen] have "kv \<in> set (inactive_scores s)" by simp
  with kv(2) show "u \<in> tracked s" by (auto simp: tracked_def)
qed

lemma slash_returning:
  assumes "slash_inactive e st = Done s" and "u \<in> set (eval_peers st)"
  shows "u \<notin> tracked s" and "moving_avg_scores s ! u = moving_avg_scores st ! u"
proof -
  from slash_inactive_Done[OF assms(1)] obtain t where
    tr: "track_newly_inactive (comms_inactive_peers e) st = Done t" and
    pen: "apply_inactivity_penalties (inactive_scores t) t = Done s"
    by blast
  note f = track_newly_inactive_Done_fields[OF tr]
  from assms(2) f(2) have act: "u \<in> set (eval_peers t)" by simp
  from penalties_inactive[OF pen] act show "u \<notin> tracked s"
    by (auto simp: tracked_def)
  from penalties_spare_active[OF act, of "inactive_scores t"] pen f(1)
  show "moving_avg_scores s ! u = moving_avg_scores st ! u" by simp
qed

lemma evaluate_and_update_absent:
  assumes "u \<notin> set (eval_peers st)"
  shows "moving_avg_scores (state_of (evaluate_and_update cfg e st)) ! u = moving_avg_scores st ! u"
    and "tracked (state_of (evaluate_and_update cfg e st)) = tracked st"
proof -
  note t = evaluate_and_update_touches[of e st cfg]
  from t show "tracked (state_of (evaluate_and_update cfg e st)) = tracked st"
    by (simp add: touches_only_def tracked_def)
  show "moving_avg_scores (state_of (evaluate_and_update cfg e st)) ! u = moving_avg_scores st ! u"
  proof (cases "eval_peers st = []")
    case True
    then show ?thesis by (simp add: evaluate_and_update_empty)
  next
    case False
    from selected_uid_member[OF False, of e] assms have "u \<noteq> selected_uid e st" by auto
    with t show ?thesis by (simp add: touches_only_def)
  qed
qed

lemma iteration_absent:
  assumes "window_iteration cfg e st = Some (Done s)" and "catch_up e = None"
    and "keys_distinct st" and "u \<notin> set (comms_eval_peers e)"
    and "u < length (moving_avg_scores st)"
    and "u \<in> tracked st \<or> u \<in> set (comms_inactive_peers e)"
  shows "moving_avg_scores s ! u = moving_avg_scores st ! u * (75 / 100)"
    and "u \<in> tracked s" and "keys_distinct s" and "u < length (moving_avg_scores s)"
proof -
  from assms(1,2) obtain r0 where bw: "begin_window cfg e st = Some r0"
    and r: "and_then r0 (evaluate_and_update cfg e) = Done s"
    by (auto simp: window_iteration_def split: option.splits)
  from state_of_and_then_done[OF r] obtain s1 where
    r0: "r0 = Done s1" and ev: "evaluate_and_update cfg e s1 = Done s" by blast
  from begin_window_Some[OF bw] r0 obtain cw where
    sl: "slash_inactive e (refresh_peers e (st\<lparr>current_window := cw\<rparr>)) = Done s1" by auto
  let ?s0 = "refresh_peers e (st\<lparr>current_window := cw\<rparr>)"
  have k0: "keys_distinct ?s0" using assms(3) by (simp add: keys_distinct_def refresh_peers_def)
  have e0: "u \<notin> set (eval_peers ?s0)" using assms(4) by (simp add: refresh_peers_def)
  have l0: "u < length (moving_avg_scores ?s0)" using assms(5) by (simp add: refresh_peers_def)
  have t0: "u \<in> tracked ?s0 \<or> u \<in> set (comms_inactive_peers e)"
    using assms(6) by (simp add: tracked_def refresh_peers_def)
  from slash_absent[OF sl k0 e0 l0 t0]
  have sc1: "moving_avg_scores s1 ! u = moving_avg_scores st ! u * (75 / 100)"
    and tr1: "u \<in> tracked s1"
    by (simp_all add: refresh_peers_def)
  from slash_inactive_invariants(3)[of e ?s0] sl have "eval_peers s1 = comms_eval_peers e"
    by (simp add: refresh_peers_def)
  with assms(4) have "u \<notin> set (eval_peers s1)" by simp
  from evaluate_and_update_absent[OF this, of cfg e] ev
  have "moving_avg_scores s ! u = moving_avg_scores s1 ! u" "tracked s = tracked s1"
    by simp_all
  with sc1 tr1 show "moving_avg_scores s ! u = moving_avg_scores st ! u * (75 / 100)"
    and "u \<in> tracked s" by simp_all
  from window_iteration_invariants(4)[OF assms(1)] assms(3) show "keys_distinct s" by simp
  from window_iteration_invariants(1)[OF assms(1)] assms(5)
  show "u < length (moving_avg_scores s)" by simp
qed

lemma run_absent:
  "run_windows cfg es st = Some (Done st') \<Longrightarrow>
   \<forall>e \<in> set es. catch_up e = None \<and> u \<notin> set (comms_eval_peers e) \<Longrightarrow>
   keys_distinct st \<Longrightarrow> u < length (moving_avg_scores st) \<Longrightarrow>
   u \<in> tracked st \<or> (es \<noteq> [] \<and> u \<in> set (comms_inactive_peers (hd es))) \<Longrightarrow>
   moving_avg_scores st' ! u = moving_avg_scores st ! u * (75 / 100) ^ length es"
proof (induction es arbitrary: st)
  case Nil
  then show ?case by simp
next
  case (Cons e es)
  from Cons.prems(1) obtain s where it: "window_iteration cfg e st = Some (Done s)"
    and rest: "run_windows cfg es s = Some (Done st')"
    by (auto split: option.splits exec.splits)
  from Cons.prems(2) have c: "catch_up e = None" and a: "u \<notin> set (comms_eval_peers e)"
    and all: "\<forall>e \<in> set es. catch_up e = None \<and> u \<notin> set (comms_eval_peers e)"
    by simp_all
  from Cons.prems(5) have t: "u \<in> tracked st \<or> u \<in> set (comms_inactive_peers e)" by auto
  note one = iteration_absent[OF it c Cons.prems(3) a Cons.prems(4) t]
  from one(2) have "u \<in> tracked s \<or> (es \<noteq> [] \<and> u \<in> set (comms_inactive_peers (hd es)))"
    by simp
  from Cons.IH[OF rest all one(3) one(4) this] one(1) show ?case by simp
qed

lemma reachable_keys_distinct: "reachable cfg st \<Longrightarrow> keys_distinct st"
  by (simp add: reachable_invariants)

text \<open>
  Claim C7. Let the dictionary \<open>inactive_scores\<close> have no key twice (as in every
  reachable state) and let \<open>u\<close> index the scores. If \<open>u\<close> is absent from the evaluation
  list in each of \<open>k \<ge> 1\<close> consecutive windows that end normally, and the peer
  directory reports its departure in the first of them (or \<open>u\<close> is tracked as inactive
  already), then its moving average score after the \<open>k\<close> windows is the score before
  them times \<open>0.75 ^ k\<close>. And in a window in which \<open>u\<close> is in the evaluation list again,
  the inactivity step removes \<open>u\<close> from the tracking and leaves its score as it is.
\<close>

theorem C7_inactivity_decay:
  assumes "keys_distinct st" and "u < length (moving_avg_scores st)"
  shows "(es \<noteq> [] \<and> (\<forall>e \<in> set es. catch_up e = None \<and> u \<notin> set (comms_eval_peers e)) \<and>
      (u \<in> tracked st \<or> u \<in> set (comms_inactive_peers (hd es))) \<and>
      run_windows cfg es st = Some (Done st') \<longrightarrow>
      moving_avg_scores st' ! u = moving_avg_scores st ! u * (75 / 100) ^ length es) \<and>
     (catch_up e = None \<and> u \<in> set (comms_eval_peers e) \<and>
      begin_window cfg e st = Some (Done s) \<longrightarrow>
      u \<notin> tracked s \<and> moving_avg_scores s ! u = moving_avg_scores st ! u)"
proof (intro conjI impI)
  assume h: "es \<noteq> [] \<and> (\<forall>e \<in> set es. catch_up e = None \<and> u \<notin> set (comms_eval_peers e)) \<and>
      (u \<in> tracked st \<or> u \<in> set (comms_inactive_peers (hd es))) \<and>
      run_windows cfg es st = Some (Done st')"
  then have run: "run_windows cfg es st = Some (Done st')"
    and all: "\<forall>e \<in> set es. catch_up e = None \<and> u \<notin> set (comms_eval_peers e)"
    and t: "u \<in> tracked st \<or> (es \<noteq> [] \<and> u \<in> set (comms_inactive_peers (hd es)))"
    by simp_all
  from run all assms t
  show "moving_avg_scores st' ! u = moving_avg_scores st ! u * (75 / 100) ^ length es"
    by (rule run_absent)
next
  assume h: "catch_up e = None \<and> u \<in> set (comms_eval_peers e) \<and>
      begin_window cfg e st = Some (Done s)"
  then have bw: "begin_window cfg e st = Some (Done s)" and act: "u \<in> set (comms_eval_peers e)"
    by simp_all
  from begin_window_Some[OF bw] obtain cw where
    sl: "slash_inactive e (refresh_peers e (st\<lparr>current_window := cw\<rparr>)) = Done s" by auto
  from act have "u \<in> set (eval_peers (refresh_peers e (st\<lparr>current_window := cw\<rparr>)))"
    by (simp add: refresh_peers_def)
  from slash_returning[OF sl this]
  show "u \<notin> tracked s" and "moving_avg_scores s ! u = moving_avg_scores st ! u"
    by (simp_all add: refresh_peers_def)
qed

text \<open>Peer 1 with score 0.8 is absent for two windows and then returns.\<close>

theorem C7_inactivity_decay_witness:
  "(\<exists>st'. run_windows cfg_ex [env_absent, env_absent] st_c7 = Some (Done st') \<and>
      moving_avg_scores st_c7 ! 1 = 8 / 10 \<and> moving_avg_scores st' ! 1 = 45 / 100 \<and>
      inactive_scores st' = [(1, (11, 8 / 10))]) \<and>
   (\<exists>s. begin_window cfg_ex env_back st_c7_tracked = Some (Done s) \<and>
      1 \<in> tracked st_c7_tracked \<and> 1 \<notin> tracked s \<and> moving_avg_scores s ! 1 = 45 / 100)"
proof
  have run: "\<exists>st'. run_windows cfg_ex [env_absent, env_absent] st_c7 = Some (Done st') \<and>
      inactive_scores st' = [(1, (11, 8 / 10))]"
    by (simp add: env_absent_def st_c7_def ex_defs run_defs upt_rec numeral_3_eq_3)
  then obtain st' where r: "run_windows cfg_ex [env_absent, env_absent] st_c7 = Some (Done st')"
    and ia: "inactive_scores st' = [(1, (11, 8 / 10))]" by blast
  have k: "keys_distinct st_c7" by (simp add: keys_distinct_def st_c7_def ex_defs)
  have l: "1 < length (moving_avg_scores st_c7)" by (simp add: st_c7_def)
  have old: "moving_avg_scores st_c7 ! 1 = 8 / 10" by (simp add: st_c7_def)
  have h: "[env_absent, env_absent] \<noteq> [] \<and>
      (\<forall>e \<in> set [env_absent, env_absent]. catch_up e = None \<and> 1 \<notin> set (comms_eval_peers e)) \<and>
      (1 \<in> tracked st_c7 \<or> 1 \<in> set (comms_inactive_peers (hd [env_absent, env_absent]))) \<and>
      run_windows cfg_ex [env_absent, env_absent] st_c7 = Some (Done st')"
    using r by (simp add: env_absent_def env_ex_def)
  from C7_inactivity_decay[where st = st_c7 and u = 1 and es = "[env_absent, env_absent]"
      and cfg = cfg_ex and st' = st', OF k l] h
  have "moving_avg_scores st' ! 1 = moving_avg_scores st_c7 ! 1 * (75 / 100) ^ length [env_absent, env_absent]"
    by blast
  with old have "moving_avg_scores st' ! 1 = 45 / 100" by (simp add: power2_eq_square)
  with r old ia show "\<exists>st'. run_windows cfg_ex [env_absent, env_absent] st_c7 = Some (Done st') \<and>
      moving_avg_scores st_c7 ! 1 = 8 / 10 \<and> moving_avg_scores st' ! 1 = 45 / 100 \<and>
      inactive_scores st' = [(1, (11, 8 / 10))]" by blast
next
  have bw: "\<exists>s. begin_window cfg_ex env_back st_c7_tracked = Some (Done s)"
    by (simp add: begin_window_def refresh_peers_def slash_inactive_def env_back_def
          st_c7_tracked_def ex_defs)
  then obtain s where s: "begin_window cfg_ex env_back st_c7_tracked = Some (Done s)" by blast
  have k: "keys_distinct st_c7_tracked" by (simp add: keys_distinct_def st_c7_tracked_def)
  have l: "1 < length (moving_avg_scores st_c7_tracked)" by (simp add: st_c7_tracked_def)
  have old: "moving_avg_scores st_c7_tracked ! 1 = 45 / 100" by (simp add: st_c7_tracked_def)
  have tr: "1 \<in> tracked st_c7_tracked" by (simp add: tracked_def st_c7_tracked_def)
  have h: "catch_up env_back = None \<and> 1 \<in> set (comms_eval_peers env_back) \<and>
      begin_window cfg_ex env_back st_c7_tracked = Some (Done s)"
    using s by (simp add: env_back_def env_ex_def)
  from C7_inactivity_decay[where st = st_c7_tracked and u = 1 and e = env_back
      and cfg = cfg_ex and s = s, OF k l] h
  have "1 \<notin> tracked s \<and> moving_avg_scores s ! 1 = moving_avg_scores st_c7_tracked ! 1"
    by blast
  with old s tr show "\<exists>s. begin_window cfg_ex env_back st_c7_tracked = Some (Done s) \<and>
      1 \<in> tracked st_c7_tracked \<and> 1 \<notin> tracked s \<and> moving_avg_scores s ! 1 = 45 / 100"
    by auto
qed

end
